theory Spec2Isabelle
  imports Main "HOL-Library.Word"
begin

section \<open>Data model\<close>

text \<open>
  Go's \<^verbatim>\<open>uint64\<close> and \<^verbatim>\<open>int64\<close> are 64-bit words:
  \<open>+\<close> wraps, \<open>unat\<close> reads the unsigned and \<open>sint\<close> the signed value.
\<close>

type_synonym uint64 = "64 word"
type_synonym int64 = "64 word"

text \<open>
  A Go \<^verbatim>\<open>error\<close> is modelled by its message; \<open>None\<close> is \<^verbatim>\<open>nil\<close>.
\<close>

type_synonym error = "string option"

text \<open>
  A non-nil \<^verbatim>\<open>interface{}\<close> value carried by a message: either the
  \<^verbatim>\<open>[]string\<close> built for getMethods or an opaque payload of type \<open>'v\<close>
  (raw JSON, a decoded argument, a reply value). \<open>None\<close> is the nil interface.
\<close>

datatype 'v any = Strings "string list" | Val 'v

text \<open>
  Modelled from the spec: the declarations of the structs \<^verbatim>\<open>Message\<close> and
  \<^verbatim>\<open>Error\<close> (the file declaring them is not among the sources); fields as in the
  data model of the specification and as the code of the endpoint uses them.
\<close>

record Error =
  Msg :: string

record 'v Message =
  ID :: uint64
  Func :: string
  Args :: "'v any option"
  Result :: "'v any option"
  Error :: "Error option"

subsection \<open>Reflection\<close>

text \<open>
  The types \<^verbatim>\<open>reflect.Type\<close> ranges over, as far as the code tells them apart:
  the predeclared \<^verbatim>\<open>error\<close> interface, a defined type (package path and name),
  and the pointer type to a type. Only a pointer type has kind \<^verbatim>\<open>reflect.Ptr\<close>,
  and only a defined type has a name.
\<close>

datatype rtype = ErrorType | Defined string string | PtrTo rtype

datatype Kind = Ptr | Interface | OtherKind

fun KindOf :: "rtype \<Rightarrow> Kind" where
  "KindOf ErrorType = Interface"
| "KindOf (Defined p n) = OtherKind"
| "KindOf (PtrTo t) = Ptr"

fun TypeName :: "rtype \<Rightarrow> string" where
  "TypeName ErrorType = ''error''"
| "TypeName (Defined p n) = n"
| "TypeName (PtrTo t) = ''''"

text \<open>
  \<^verbatim>\<open>reflect.Value\<close>s that appear in the argument list of a handler: the receiver,
  a pointer to a decoded value, the decoded value itself, a pointer to a fresh zero value
  (\<^verbatim>\<open>reflect.New\<close>), the zero value of a type (\<^verbatim>\<open>reflect.Zero\<close>), the
  endpoint, and a value a codec filled in.
\<close>

datatype 'v rvalue =
    ReceiverV 'v
  | PtrV 'v
  | ElemV 'v
  | NewV rtype
  | ZeroV rtype
  | EndpointV
  | CodecV 'v

text \<open>
  \<^verbatim>\<open>reflect.Method\<close>: \<open>In\<close> and \<open>Out\<close> are the parameter and result types of
  \<^verbatim>\<open>method.Type\<close> (the receiver is \<open>In ! 0\<close>); \<open>Call\<close> is
  \<^verbatim>\<open>method.Func.Call\<close>, giving the returned error and the value the handler left
  behind the reply pointer.
\<close>

record 'v Method =
  Name :: string
  PkgPath :: string
  In :: "rtype list"
  Out :: "rtype list"
  Call :: "'v rvalue list \<Rightarrow> error \<times> 'v"

text \<open>
  A non-nil \<^verbatim>\<open>interface{}\<close> passed to registration: its dynamic type, whether it
  is a nil pointer, its value and the method set \<^verbatim>\<open>reflect\<close> enumerates
  (\<^verbatim>\<open>Method(i)\<close> for \<open>i < NumMethod()\<close>).
\<close>

record 'v Object =
  obj_type :: rtype
  obj_nil :: bool
  obj_value :: 'v
  obj_methods :: "'v Method list"

text \<open>
  The struct \<^verbatim>\<open>function\<close> of the registry, and the registry with its map
  \<^verbatim>\<open>functions\<close> (\<open>reg_functions\<close>).
\<close>

record 'v function_t =
  fn_receiver :: "'v Object"
  fn_method :: "'v Method"
  fn_args :: rtype
  fn_reply :: rtype

record 'v Registry =
  reg_functions :: "string \<rightharpoonup> 'v function_t"

subsection \<open>Codec\<close>

text \<open>
  The interface \<^verbatim>\<open>Codec\<close>. The decoders are functions of the message: each gives the
  error it returns and the value it leaves in the destination. \<open>FillArgs\<close> is \<open>None\<close>
  for a codec that does not implement \<^verbatim>\<open>FillArgser\<close>. What
  \<^verbatim>\<open>ReadMessage\<close>, \<^verbatim>\<open>WriteMessage\<close> and \<^verbatim>\<open>Ping\<close> return
  depends on the transport: each operation below that calls one of them takes the returned
  value as an argument, so a theorem about it holds for every behaviour of the transport.
\<close>

record 'v Codec =
  UnmarshalArgs :: "'v Message \<Rightarrow> rtype \<Rightarrow> error \<times> 'v"
  UnmarshalResult :: "'v Message \<Rightarrow> 'v \<Rightarrow> error \<times> 'v"
  FillArgs :: "('v rvalue list \<Rightarrow> error \<times> 'v rvalue list) option"

subsection \<open>Calls, channels and the endpoint\<close>

text \<open>
  \<^verbatim>\<open>rpc.Call\<close> of net/rpc. Calls and channels are shared between the caller and the
  endpoint, so they live in a store and are named by their address. A channel of
  \<^verbatim>\<open>*rpc.Call\<close> has a capacity and the queue of buffered addresses.
\<close>

record 'v Call =
  call_ServiceMethod :: string
  call_Args :: "'v any option"
  call_Reply :: "'v option"
  call_Error :: error
  call_Done :: nat

record chan =
  chan_cap :: nat
  chan_buf :: "nat list"

text \<open>
  The struct \<^verbatim>\<open>Endpoint\<close> (\<open>client_seq\<close> is \<^verbatim>\<open>client.seq\<close>, and so on),
  followed by what the endpoint acts on: the number of handler tasks the wait group
  \<^verbatim>\<open>server.running\<close> counts is the length of \<open>server_tasks\<close>, the handler
  tasks started and not yet run; \<open>send_tasks\<close> are the messages of the tasks started by
  \<^verbatim>\<open>go e.send(msg)\<close> and not yet run; \<open>written\<close> lists the messages passed to
  \<^verbatim>\<open>codec.WriteMessage\<close>, \<open>closes\<close> and \<open>pings\<close> count the calls of
  \<^verbatim>\<open>codec.Close\<close> and \<^verbatim>\<open>codec.Ping\<close>; \<open>calls\<close> and \<open>chans\<close> are the stores, with the next
  unused addresses.
\<close>

record 'v Endpoint =
  client_seq :: uint64
  client_pending :: "uint64 \<rightharpoonup> nat"
  server_registry :: "'v Registry"
  server_tasks :: "('v function_t \<times> 'v Message) list"
  lastPongTimestamp :: int64
  seqID :: uint64
  send_tasks :: "'v Message list"
  written :: "'v Message list"
  closes :: nat
  pings :: nat
  calls :: "nat \<rightharpoonup> 'v Call"
  chans :: "nat \<rightharpoonup> chan"
  next_call :: nat
  next_chan :: nat

section \<open>Serving requests\<close>

text \<open>
  \<^verbatim>\<open>send\<close> passes the message to \<^verbatim>\<open>codec.WriteMessage\<close> and returns what
  that returns (\<open>werr\<close>).
\<close>

definition send :: "'v Endpoint \<Rightarrow> 'v Message \<Rightarrow> error \<Rightarrow> error \<times> 'v Endpoint" where
  "send e msg werr = (werr, e\<lparr>written := written e @ [msg]\<rparr>)"

text \<open>
  A \<^verbatim>\<open>range\<close> over a Go map visits every key once, in an order the runtime
  chooses: \<open>range_order m ks\<close> says that \<open>ks\<close> is such an order for \<open>m\<close>.
\<close>

definition range_order :: "('k \<rightharpoonup> 'a) \<Rightarrow> 'k list \<Rightarrow> bool" where
  "range_order m ks \<longleftrightarrow> distinct ks \<and> set ks = dom m"

text \<open>
  \<^verbatim>\<open>serve_request\<close>; \<open>ks\<close> is the order in which the range over the registry runs
  and \<open>werr\<close> the result of the write. The handler task of a known function is started,
  not run.
\<close>

definition serve_request ::
  "'v Endpoint \<Rightarrow> 'v Message \<Rightarrow> string list \<Rightarrow> error \<Rightarrow> error \<times> 'v Endpoint" where
  "serve_request e msg ks werr =
     (if Func msg = ''getMethods'' then
        let funcs = foldl (\<lambda>funcs k. funcs @ [k]) [] ks
        in send e (msg\<lparr>Error := None, Func := '''', Args := None,
                        Result := Some (Strings funcs)\<rparr>) werr
      else
        case reg_functions (server_registry e) (Func msg) of
          None \<Rightarrow>
            (case send e (msg\<lparr>Error := Some \<lparr>Msg = ''No such function.''\<rparr>, Func := '''',
                               Args := None, Result := None\<rparr>) werr of
               (Some err, e') \<Rightarrow> (Some err, e')
             | (None, e') \<Rightarrow> (None, e'))
        | Some fn \<Rightarrow> (None, e\<lparr>server_tasks := server_tasks e @ [(fn, msg)]\<rparr>))"

text \<open>
  The error replies of \<^verbatim>\<open>call\<close> are four copies of the same lines: set the error,
  clear the other fields, send, and close the codec when the send fails.
\<close>

definition codec_Close :: "'v Endpoint \<Rightarrow> 'v Endpoint" where
  "codec_Close e = e\<lparr>closes := Suc (closes e)\<rparr>"

definition send_or_close :: "'v Endpoint \<Rightarrow> 'v Message \<Rightarrow> error \<Rightarrow> 'v Endpoint" where
  "send_or_close e msg werr =
     (case send e msg werr of
        (Some err, e') \<Rightarrow> codec_Close e'
      | (None, e') \<Rightarrow> e')"

definition reply_error :: "'v Endpoint \<Rightarrow> 'v Message \<Rightarrow> string \<Rightarrow> error \<Rightarrow> 'v Endpoint" where
  "reply_error e msg m werr =
     send_or_close e (msg\<lparr>Error := Some \<lparr>Msg = m\<rparr>, Func := '''', Args := None,
                           Result := None\<rparr>) werr"

text \<open>
  \<^verbatim>\<open>fillArgs\<close>: a slot whose dynamic type is \<^verbatim>\<open>*Endpoint\<close> gets the endpoint.
  The slots hold the zero values of the declared types when it runs.
\<close>

definition EndpointPtr :: rtype where
  "EndpointPtr = PtrTo (Defined ''birpc'' ''Endpoint'')"

fun fillArgs :: "'v rvalue list \<Rightarrow> 'v rvalue list" where
  "fillArgs [] = []"
| "fillArgs (ZeroV t # vs) = (if t = EndpointPtr then EndpointV else ZeroV t) # fillArgs vs"
| "fillArgs (v # vs) = v # fillArgs vs"

text \<open>
  A Go panic ends the task: \<open>Panics\<close> carries the message, \<open>Returns\<close> the result.
\<close>

datatype 'a outcome = Panics string | Returns 'a

text \<open>
  \<^verbatim>\<open>call\<close>, the body of a handler task. Writing \<^verbatim>\<open>arglist[2]\<close> panics when
  the method takes fewer than three parameters (registration never stores such a method).
\<close>

definition call ::
  "'v Codec \<Rightarrow> 'v Endpoint \<Rightarrow> 'v function_t \<Rightarrow> 'v Message \<Rightarrow> error \<Rightarrow> 'v Endpoint outcome" where
  "call c e fn msg werr =
     (let new_type = (case fn_args fn of PtrTo t \<Rightarrow> t | _ \<Rightarrow> fn_args fn) in
      case UnmarshalArgs c msg new_type of
        (Some err, a) \<Rightarrow> Returns (reply_error e msg err werr)
      | (None, a) \<Rightarrow>
          let args = (if KindOf (fn_args fn) \<noteq> Ptr then ElemV a else PtrV a);
              reply = NewV (fn_reply fn);
              num_args = length (In (fn_method fn))
          in if num_args < 3 then Panics ''index out of range''
             else
               let extras = (if num_args > 3
                             then fillArgs (map ZeroV (drop 3 (In (fn_method fn)))) else []);
                   filled = (if num_args > 3
                             then (case FillArgs c of
                                     Some filler \<Rightarrow> filler extras
                                   | None \<Rightarrow> (None, extras))
                             else (None, extras))
               in case filled of
                    (Some err, _) \<Rightarrow> Returns (reply_error e msg err werr)
                  | (None, extras') \<Rightarrow>
                      let arglist = [ReceiverV (obj_value (fn_receiver fn)), args, reply] @ extras'
                      in case Call (fn_method fn) arglist of
                           (Some err, _) \<Rightarrow> Returns (reply_error e msg err werr)
                         | (None, r) \<Rightarrow>
                             Returns (send_or_close e
                               (msg\<lparr>Error := None, Func := '''', Args := None,
                                     Result := Some (Val r)\<rparr>) werr))"

section \<open>Issuing calls\<close>

text \<open>
  \<^verbatim>\<open>NewEndpoint\<close>; \<open>now\<close> is what \<^verbatim>\<open>time.Now().Unix()\<close> returns.
  The endpoint holds the registry as it is at that moment.
\<close>

definition NewRegistry :: "'v Registry" where
  "NewRegistry = \<lparr>reg_functions = Map.empty\<rparr>"

definition dummyRegistry :: "'v Registry" where
  "dummyRegistry = NewRegistry"

definition NewEndpoint :: "'v Registry option \<Rightarrow> int64 \<Rightarrow> 'v Endpoint" where
  "NewEndpoint registry now =
     \<lparr>client_seq = 0, client_pending = Map.empty,
      server_registry = (case registry of None \<Rightarrow> dummyRegistry | Some r \<Rightarrow> r),
      server_tasks = [], lastPongTimestamp = now, seqID = 0,
      send_tasks = [], written = [], closes = 0, pings = 0,
      calls = Map.empty, chans = Map.empty, next_call = 0, next_chan = 0\<rparr>"

text \<open>\<^verbatim>\<open>make(chan *rpc.Call, n)\<close> and \<^verbatim>\<open>&rpc.Call{}\<close>.\<close>

definition make_chan :: "'v Endpoint \<Rightarrow> nat \<Rightarrow> nat \<times> 'v Endpoint" where
  "make_chan e n =
     (next_chan e,
      e\<lparr>chans := (chans e)(next_chan e \<mapsto> \<lparr>chan_cap = n, chan_buf = []\<rparr>),
        next_chan := Suc (next_chan e)\<rparr>)"

definition new_call :: "'v Endpoint \<Rightarrow> 'v Call \<Rightarrow> nat \<times> 'v Endpoint" where
  "new_call e cl =
     (next_call e,
      e\<lparr>calls := (calls e)(next_call e \<mapsto> cl), next_call := Suc (next_call e)\<rparr>)"

text \<open>\<^verbatim>\<open>cap(done)\<close>; a nil channel has capacity 0.\<close>

definition cap :: "'v Endpoint \<Rightarrow> nat \<Rightarrow> nat" where
  "cap e d = (case chans e d of None \<Rightarrow> 0 | Some ch \<Rightarrow> chan_cap ch)"

text \<open>
  \<^verbatim>\<open>Go\<close>: \<open>done\<close> is \<open>None\<close> for a nil channel. The result is the address of
  the call. The write is left to a task of its own (\<open>send_tasks\<close>).
\<close>

definition Go ::
  "'v Endpoint \<Rightarrow> string \<Rightarrow> 'v any option \<Rightarrow> 'v option \<Rightarrow> nat option
     \<Rightarrow> (nat \<times> 'v Endpoint) outcome" where
  "Go e func args reply done =
     (case (case done of
              None \<Rightarrow> Returns (make_chan e 10)
            | Some d \<Rightarrow> if cap e d = 0
                        then Panics ''birpc: done channel is unbuffered''
                        else Returns (d, e)) of
        Panics p \<Rightarrow> Panics p
      | Returns (d, e1) \<Rightarrow>
          let (callp, e2) = new_call e1 \<lparr>call_ServiceMethod = func, call_Args = args,
                                          call_Reply = reply, call_Error = None,
                                          call_Done = d\<rparr>;
              msg = \<lparr>ID = 0, Func = func, Args = args, Result = None, Error = None\<rparr>;
              seq = client_seq e2 + 1;
              msg' = msg\<lparr>ID := seq\<rparr>
          in Returns (callp,
               e2\<lparr>client_seq := seq,
                  client_pending := (client_pending e2)(ID msg' \<mapsto> callp),
                  send_tasks := send_tasks e2 @ [msg']\<rparr>))"

text \<open>
  A task \<^verbatim>\<open>go e.send(msg)\<close> running: the tasks run in any order, so it is the
  \<open>i\<close>-th of those waiting; its message is written and the result of the write is
  dropped.
\<close>

definition without :: "nat \<Rightarrow> 'a list \<Rightarrow> 'a list" where
  "without i xs = take i xs @ drop (Suc i) xs"

definition run_send :: "'v Endpoint \<Rightarrow> nat \<Rightarrow> error \<Rightarrow> 'v Endpoint" where
  "run_send e i werr =
     (if i < length (send_tasks e)
      then snd (send (e\<lparr>send_tasks := without i (send_tasks e)\<rparr>) (send_tasks e ! i) werr)
      else e)"

text \<open>
  The non-blocking send \<^verbatim>\<open>select { case ch <- a: default: }\<close> on a buffered
  channel, and the receive, which is \<open>None\<close> while it blocks.
\<close>

definition try_send :: "'v Endpoint \<Rightarrow> nat \<Rightarrow> nat \<Rightarrow> 'v Endpoint" where
  "try_send e d a =
     (case chans e d of
        None \<Rightarrow> e
      | Some ch \<Rightarrow>
          if length (chan_buf ch) < chan_cap ch
          then e\<lparr>chans := (chans e)(d \<mapsto> ch\<lparr>chan_buf := chan_buf ch @ [a]\<rparr>)\<rparr>
          else e)"

definition recv :: "'v Endpoint \<Rightarrow> nat \<Rightarrow> (nat \<times> 'v Endpoint) option" where
  "recv e d =
     (case chans e d of
        None \<Rightarrow> None
      | Some ch \<Rightarrow>
          (case chan_buf ch of
             [] \<Rightarrow> None
           | a # rest \<Rightarrow> Some (a, e\<lparr>chans := (chans e)(d \<mapsto> ch\<lparr>chan_buf := rest\<rparr>)\<rparr>)))"

text \<open>Decimal digits of a number, as \<^verbatim>\<open>%v\<close> prints a \<^verbatim>\<open>uint64\<close>.\<close>

fun show_nat :: "nat \<Rightarrow> string" where
  "show_nat n =
     (if n < 10 then [char_of (48 + n)]
      else show_nat (n div 10) @ [char_of (48 + n mod 10)])"

declare show_nat.simps [simp del]

text \<open>
  \<^verbatim>\<open>serve_response\<close>. An address in the pending table always names a call of the
  store; \<open>get_call\<close> reads that call and \<open>set_call\<close> changes it.
\<close>

definition set_call :: "'v Endpoint \<Rightarrow> nat \<Rightarrow> ('v Call \<Rightarrow> 'v Call) \<Rightarrow> 'v Endpoint" where
  "set_call e a f =
     (case calls e a of
        None \<Rightarrow> e
      | Some cl \<Rightarrow> e\<lparr>calls := (calls e)(a \<mapsto> f cl)\<rparr>)"

definition get_call :: "'v Endpoint \<Rightarrow> nat \<Rightarrow> 'v Call" where
  "get_call e a =
     (case calls e a of
        None \<Rightarrow> \<lparr>call_ServiceMethod = '''', call_Args = None, call_Reply = None,
                  call_Error = None, call_Done = 0\<rparr>
      | Some cl \<Rightarrow> cl)"

definition serve_response ::
  "'v Codec \<Rightarrow> 'v Endpoint \<Rightarrow> 'v Message \<Rightarrow> error \<times> 'v Endpoint" where
  "serve_response c e msg =
     (let found = client_pending e (ID msg);
          e1 = e\<lparr>client_pending := (client_pending e)(ID msg := None)\<rparr>
      in case found of
           None \<Rightarrow> (Some (''Server responded with unknown seq '' @ show_nat (unat (ID msg))), e1)
         | Some callp \<Rightarrow>
             let e2 =
               (case Error msg of
                  None \<Rightarrow>
                    (case call_Reply (get_call e1 callp) of
                       None \<Rightarrow> e1
                     | Some dst \<Rightarrow>
                         (case UnmarshalResult c msg dst of
                            (Some err, v) \<Rightarrow>
                              set_call e1 callp (\<lambda>cl. cl\<lparr>call_Reply := Some v,
                                call_Error := Some (''Unmarshaling result: '' @ err)\<rparr>)
                          | (None, v) \<Rightarrow>
                              set_call e1 callp (\<lambda>cl. cl\<lparr>call_Reply := Some v\<rparr>)))
                | Some er \<Rightarrow> set_call e1 callp (\<lambda>cl. cl\<lparr>call_Error := Some (Msg er)\<rparr>))
             in (None, try_send e2 (call_Done (get_call e2 callp)) callp))"

text \<open>
  \<^verbatim>\<open>Call\<close> and \<^verbatim>\<open>CallWithDeadline\<close> begin with \<^verbatim>\<open>Go\<close> on a fresh
  channel of capacity 1 and then wait. \<open>Call_wait\<close> is the receive of
  \<^verbatim>\<open>Call\<close>: \<open>None\<close> while it blocks, else the error of the call received.
\<close>

definition Call_start ::
  "'v Endpoint \<Rightarrow> string \<Rightarrow> 'v any option \<Rightarrow> 'v option \<Rightarrow> (nat \<times> 'v Endpoint) outcome" where
  "Call_start e func args reply =
     (let (d, e1) = make_chan e 1 in Go e1 func args reply (Some d))"

definition Call_wait :: "'v Endpoint \<Rightarrow> nat \<Rightarrow> (error \<times> 'v Endpoint) option" where
  "Call_wait e callp =
     (case recv e (call_Done (get_call e callp)) of
        None \<Rightarrow> None
      | Some (callp', e') \<Rightarrow> Some (call_Error (get_call e' callp'), e'))"

text \<open>
  The loop of the timeout branch: the range over the pending table in the order \<open>ks\<close>
  deletes the first key that holds the call and stops.
\<close>

fun remove_call :: "(uint64 \<rightharpoonup> nat) \<Rightarrow> nat \<Rightarrow> uint64 list \<Rightarrow> (uint64 \<rightharpoonup> nat)" where
  "remove_call p callp [] = p"
| "remove_call p callp (k # ks) =
     (if p k = Some callp then p(k := None) else remove_call p callp ks)"

text \<open>
  The \<^verbatim>\<open>select\<close> of \<^verbatim>\<open>CallWithDeadline\<close>: \<open>ctx_done\<close> says that the deadline
  has passed; when both cases are ready Go picks one at random, \<open>pick_timeout\<close> says
  which. \<open>None\<close> while the select blocks.
\<close>

definition CallWithDeadline_select ::
  "'v Endpoint \<Rightarrow> nat \<Rightarrow> bool \<Rightarrow> bool \<Rightarrow> uint64 list \<Rightarrow> (error \<times> 'v Endpoint) option" where
  "CallWithDeadline_select e callp ctx_done pick_timeout ks =
     (let ready = (recv e (call_Done (get_call e callp)) \<noteq> None)
      in if ctx_done \<and> (\<not> ready \<or> pick_timeout)
         then Some (Some ''birpc: call timeout, dont resend'',
                    e\<lparr>client_pending := remove_call (client_pending e) callp ks\<rparr>)
         else Call_wait e callp)"

section \<open>Serve\<close>

text \<open>
  \<^verbatim>\<open>pingPeriod = 10 * time.Second\<close>, a duration in nanoseconds;
  \<^verbatim>\<open>int64(pingPeriod.Seconds())\<close> is the number of whole seconds in it.
\<close>

definition Second :: int where
  "Second = 1000000000"

definition pingPeriod :: int where
  "pingPeriod = 10 * Second"

definition Seconds :: "int \<Rightarrow> int64" where
  "Seconds d = of_int (d div Second)"

text \<open>
  \<^verbatim>\<open>Serve\<close> starts two tasks and waits for the first error either of them returns.
  \<open>pingpongError\<close> and \<open>readError\<close> hold what the heartbeat task and the reader task
  have returned into their channels (\<open>None\<close> while the task runs).
\<close>

record 'v Serving =
  ep :: "'v Endpoint"
  pingpongError :: "string option"
  readError :: "string option"

text \<open>
  Entering \<^verbatim>\<open>Serve\<close> installs the two handlers and starts the tasks. \<open>now\<close> is
  the time on the clock at that moment; the code does not read it.
\<close>

definition Serve_start :: "'v Endpoint \<Rightarrow> int64 \<Rightarrow> 'v Serving" where
  "Serve_start e now = \<lparr>ep = e, pingpongError = None, readError = None\<rparr>"

text \<open>
  What happens while \<^verbatim>\<open>Serve\<close> runs:
  \<^item> \<open>Tick now perr\<close>: the ticker fires, the clock reads \<open>now\<close>, and
    \<^verbatim>\<open>codec.Ping\<close>, if called, returns \<open>perr\<close>;
  \<^item> \<open>Pong now\<close>: the codec calls the pong handler while the clock reads \<open>now\<close>;
  \<^item> \<open>Read r ks werr\<close>: \<^verbatim>\<open>ReadMessage\<close> returns the error or the message \<open>r\<close>
    (\<open>ks\<close> and \<open>werr\<close> as in \<open>serve_request\<close>);
  \<^item> \<open>Handler i werr\<close>, \<open>Sender i werr\<close>: the \<open>i\<close>-th waiting handler task, or
    task of \<^verbatim>\<open>go e.send\<close>, runs, its write returning \<open>werr\<close>.

  The ping handler only calls \<^verbatim>\<open>codec.Pong\<close> and changes nothing in the endpoint.
\<close>

datatype 'v event =
    Tick int64 error
  | Pong int64
  | Read "string + 'v Message" "string list" error
  | Handler nat error
  | Sender nat error

text \<open>One round of the loop over \<^verbatim>\<open>ticker.C\<close>.\<close>

definition heartbeat :: "'v Serving \<Rightarrow> int64 \<Rightarrow> error \<Rightarrow> 'v Serving" where
  "heartbeat s now perr =
     (let lastPong = lastPongTimestamp (ep s)
      in if lastPong + 2 * Seconds pingPeriod <s now
         then s\<lparr>pingpongError := Some ''remote connection is timeout.''\<rparr>
         else
           let s' = s\<lparr>ep := (ep s)\<lparr>pings := Suc (pings (ep s))\<rparr>\<rparr>
           in case perr of
                Some err \<Rightarrow> s'\<lparr>pingpongError := Some ''remote connection is closed.''\<rparr>
              | None \<Rightarrow> s')"

text \<open>The pong handler installed by \<^verbatim>\<open>Serve\<close>.\<close>

definition pong_handler :: "'v Endpoint \<Rightarrow> int64 \<Rightarrow> 'v Endpoint" where
  "pong_handler e now = e\<lparr>lastPongTimestamp := now\<rparr>"

text \<open>One round of the reader's loop, after \<^verbatim>\<open>ReadMessage\<close> has returned \<open>r\<close>.\<close>

definition reader ::
  "'v Codec \<Rightarrow> 'v Serving \<Rightarrow> string + 'v Message \<Rightarrow> string list \<Rightarrow> error \<Rightarrow> 'v Serving" where
  "reader c s r ks werr =
     (case r of
        Inl err \<Rightarrow> s\<lparr>readError := Some err\<rparr>
      | Inr msg \<Rightarrow>
          (case (if Func msg \<noteq> '''' then serve_request (ep s) msg ks werr
                 else serve_response c (ep s) msg) of
             (Some err, e') \<Rightarrow> s\<lparr>ep := e', readError := Some err\<rparr>
           | (None, e') \<Rightarrow> s\<lparr>ep := e'\<rparr>))"

text \<open>
  A task that has returned does nothing more; the pong handler runs inside the reader's
  \<^verbatim>\<open>ReadMessage\<close>. A panic in a handler task ends the program.
\<close>

definition step :: "'v Codec \<Rightarrow> 'v Serving \<Rightarrow> 'v event \<Rightarrow> 'v Serving outcome" where
  "step c s ev =
     (case ev of
        Tick now perr \<Rightarrow>
          Returns (if pingpongError s = None then heartbeat s now perr else s)
      | Pong now \<Rightarrow>
          Returns (if readError s = None then s\<lparr>ep := pong_handler (ep s) now\<rparr> else s)
      | Read r ks werr \<Rightarrow>
          Returns (if readError s = None then reader c s r ks werr else s)
      | Handler i werr \<Rightarrow>
          if i < length (server_tasks (ep s))
          then (case server_tasks (ep s) ! i of
                  (fn, msg) \<Rightarrow>
                    (case call c ((ep s)\<lparr>server_tasks := without i (server_tasks (ep s))\<rparr>)
                            fn msg werr of
                       Panics p \<Rightarrow> Panics p
                     | Returns e' \<Rightarrow> Returns (s\<lparr>ep := e'\<rparr>)))
          else Returns s
      | Sender i werr \<Rightarrow> Returns (s\<lparr>ep := run_send (ep s) i werr\<rparr>))"

fun run :: "'v Codec \<Rightarrow> 'v Serving \<Rightarrow> 'v event list \<Rightarrow> 'v Serving outcome" where
  "run c s [] = Returns s"
| "run c s (ev # evs) =
     (case step c s ev of
        Panics p \<Rightarrow> Panics p
      | Returns s' \<Rightarrow> run c s' evs)"

text \<open>
  The \<^verbatim>\<open>select\<close> at the end of \<^verbatim>\<open>Serve\<close>: \<open>None\<close> while neither task has
  returned; when both have, Go picks one at random and \<open>pick_ping\<close> says which. Before
  \<^verbatim>\<open>Serve\<close> returns the error, the deferred calls wait for the handler tasks and
  close the codec.
\<close>

definition Serve_select :: "'v Serving \<Rightarrow> bool \<Rightarrow> string option" where
  "Serve_select s pick_ping =
     (case (pingpongError s, readError s) of
        (None, None) \<Rightarrow> None
      | (Some p, None) \<Rightarrow> Some p
      | (None, Some r) \<Rightarrow> Some r
      | (Some p, Some r) \<Rightarrow> Some (if pick_ping then p else r))"

definition Serve_return :: "'v Serving \<Rightarrow> bool \<Rightarrow> (string \<times> 'v Endpoint) option" where
  "Serve_return s pick_ping =
     (case Serve_select s pick_ping of
        None \<Rightarrow> None
      | Some err \<Rightarrow>
          if server_tasks (ep s) = [] then Some (err, codec_Close (ep s)) else None)"

section \<open>Registration\<close>

text \<open>How \<^verbatim>\<open>%T\<close> prints a type, and \<^verbatim>\<open>Type.Elem\<close> of a pointer type.\<close>

fun TypeString :: "rtype \<Rightarrow> string" where
  "TypeString ErrorType = ''error''"
| "TypeString (Defined p n) = (if p = '''' then n else p @ ''.'' @ n)"
| "TypeString (PtrTo t) = ''*'' @ TypeString t"

fun Elem :: "rtype \<Rightarrow> rtype" where
  "Elem (PtrTo t) = t"
| "Elem t = t"

text \<open>
  The loop of \<^verbatim>\<open>getRPCMethodsOfType\<close> over the methods that are left, with the
  functions collected so far. The lines it prints are not modelled.
\<close>

fun scan :: "'v Object \<Rightarrow> 'v Method list \<Rightarrow> 'v function_t list \<Rightarrow> 'v function_t list" where
  "scan object [] fns = fns"
| "scan object (m # ms) fns =
     (if PkgPath m \<noteq> '''' then scan object ms fns
      else if length (In m) < 3 then scan object ms fns
      else if KindOf (In m ! 2) \<noteq> Ptr then scan object ms fns
      else if length (Out m) \<noteq> 1 \<or> Out m ! 0 \<noteq> ErrorType then scan object ms fns
      else scan object ms
             (fns @ [\<lparr>fn_receiver = object, fn_method = m, fn_args = In m ! 1,
                      fn_reply = Elem (In m ! 2)\<rparr>]))"

text \<open>
  \<open>None\<close> is the nil interface, whose \<^verbatim>\<open>reflect.TypeOf\<close> is nil: calling
  \<^verbatim>\<open>NumMethod\<close> on it panics.
\<close>

definition getRPCMethodsOfType ::
  "'v Object option \<Rightarrow> (error \<times> 'v function_t list) outcome" where
  "getRPCMethodsOfType object =
     (case object of
        None \<Rightarrow> Panics ''invalid memory address or nil pointer dereference''
      | Some obj \<Rightarrow>
          let fns = scan obj (obj_methods obj) []
          in if length fns = 0
             then Returns (Some (''birpc.RegisterService: type '' @ TypeString (obj_type obj)
                                   @ '' has no exported methods of suitable type''), [])
             else Returns (None, fns))"

text \<open>
  \<^verbatim>\<open>reflect.Indirect(reflect.ValueOf(object)).Type().Name()\<close>: a pointer is
  followed once; for a nil pointer \<^verbatim>\<open>Type\<close> is called on the zero Value and panics.
\<close>

definition indirect_name :: "'v Object \<Rightarrow> string outcome" where
  "indirect_name obj =
     (case obj_type obj of
        PtrTo t \<Rightarrow> if obj_nil obj then Panics ''call of reflect.Value.Type on zero Value''
                   else Returns (TypeName t)
      | t \<Rightarrow> Returns (TypeName t))"

text \<open>The body and the whole of the loop that fills the map.\<close>

definition insert_fn ::
  "string \<Rightarrow> (string \<rightharpoonup> 'v function_t) \<Rightarrow> 'v function_t \<Rightarrow> (string \<rightharpoonup> 'v function_t)" where
  "insert_fn serviceName fs fn = fs(serviceName @ ''.'' @ Name (fn_method fn) \<mapsto> fn)"

definition insert_all :: "'v Registry \<Rightarrow> string \<Rightarrow> 'v function_t list \<Rightarrow> 'v Registry" where
  "insert_all r serviceName methods =
     r\<lparr>reg_functions := foldl (insert_fn serviceName) (reg_functions r) methods\<rparr>"

definition RegisterServiceWithName ::
  "'v Registry \<Rightarrow> 'v Object option \<Rightarrow> string \<Rightarrow> (error \<times> 'v Registry) outcome" where
  "RegisterServiceWithName r object serviceName =
     (case getRPCMethodsOfType object of
        Panics p \<Rightarrow> Panics p
      | Returns (Some err, _) \<Rightarrow> Returns (Some err, r)
      | Returns (None, methods) \<Rightarrow>
          (case (if serviceName = ''''
                 then (case object of
                         None \<Rightarrow> Panics ''invalid memory address or nil pointer dereference''
                       | Some obj \<Rightarrow> indirect_name obj)
                 else Returns serviceName) of
             Panics p \<Rightarrow> Panics p
           | Returns name \<Rightarrow> Returns (None, insert_all r name methods)))"

definition RegisterService :: "'v Registry \<Rightarrow> 'v Object option \<Rightarrow> (error \<times> 'v Registry) outcome" where
  "RegisterService r object = RegisterServiceWithName r object ''''"

section \<open>Notions used by the properties\<close>

text \<open>
  A response has exactly one of \<^verbatim>\<open>Result\<close> and \<^verbatim>\<open>Error\<close> set (not nil).
\<close>

definition result_xor_error :: "'v Message \<Rightarrow> bool" where
  "result_xor_error m \<longleftrightarrow> (Result m \<noteq> None) \<noteq> (Error m \<noteq> None)"

text \<open>
  Every key of the pending table is an ID that \<^verbatim>\<open>Go\<close> has handed out: not 0 and
  not beyond the counter.
\<close>

definition pending_bounded :: "'v Endpoint \<Rightarrow> bool" where
  "pending_bounded e \<longleftrightarrow> (\<forall>k \<in> dom (client_pending e). k \<noteq> 0 \<and> k \<le> client_seq e)"

text \<open>Every call in the pending table has been allocated.\<close>

definition pending_allocated :: "'v Endpoint \<Rightarrow> bool" where
  "pending_allocated e \<longleftrightarrow> (\<forall>a \<in> ran (client_pending e). a < next_call e)"

text \<open>\<open>n\<close> calls of \<^verbatim>\<open>Go\<close> in a row, each with a nil channel.\<close>

fun Go_times :: "'v Endpoint \<Rightarrow> nat \<Rightarrow> 'v Endpoint" where
  "Go_times e 0 = e"
| "Go_times e (Suc n) =
     (case Go (Go_times e n) ''f'' None None None of
        Panics p \<Rightarrow> Go_times e n
      | Returns (callp, e') \<Rightarrow> e')"

subsection \<open>A service, a codec and requests to run the definitions on\<close>

text \<open>
  The service of the tests: \<^verbatim>\<open>func (_ WordLength) Len(request *Request, reply *Reply) error\<close>,
  with payloads reduced to \<open>unit\<close>, and a codec whose decoders succeed.
\<close>

definition Len :: "unit Method" where
  "Len = \<lparr>Name = ''Len'', PkgPath = '''',
          In = [Defined ''main'' ''WordLength'', PtrTo (Defined ''main'' ''Request''),
                PtrTo (Defined ''main'' ''Reply'')],
          Out = [ErrorType], Call = (\<lambda>args. (None, ()))\<rparr>"

definition WordLength :: "unit Object" where
  "WordLength = \<lparr>obj_type = Defined ''main'' ''WordLength'', obj_nil = False, obj_value = (),
                 obj_methods = [Len]\<rparr>"

definition WordLength_Len :: "unit function_t" where
  "WordLength_Len = \<lparr>fn_receiver = WordLength, fn_method = Len,
                     fn_args = PtrTo (Defined ''main'' ''Request''),
                     fn_reply = Defined ''main'' ''Reply''\<rparr>"

definition WordLength_registry :: "unit Registry" where
  "WordLength_registry = \<lparr>reg_functions = [''WordLength.Len'' \<mapsto> WordLength_Len]\<rparr>"

definition json_codec :: "unit Codec" where
  "json_codec = \<lparr>UnmarshalArgs = (\<lambda>msg t. (None, ())), UnmarshalResult = (\<lambda>msg v. (None, ())),
                 FillArgs = None\<rparr>"

definition request :: "uint64 \<Rightarrow> string \<Rightarrow> unit Message" where
  "request i f = \<lparr>ID = i, Func = f, Args = None, Result = None, Error = None\<rparr>"

definition response :: "uint64 \<Rightarrow> unit Message" where
  "response i = \<lparr>ID = i, Func = '''', Args = None, Result = Some (Val ()), Error = None\<rparr>"

definition fresh :: "unit Endpoint" where
  "fresh = NewEndpoint None 0"

text \<open>
  Two states of the endpoint agree on what the calling side owns: the counter, the
  pending table, the calls and the channels.
\<close>

definition same_client :: "'v Endpoint \<Rightarrow> 'v Endpoint \<Rightarrow> bool" where
  "same_client e e' \<longleftrightarrow>
     client_seq e' = client_seq e \<and> client_pending e' = client_pending e
     \<and> calls e' = calls e \<and> chans e' = chans e"

text \<open>The reader has read a response: a message with an empty \<^verbatim>\<open>Func\<close>.\<close>

definition is_response :: "'v event \<Rightarrow> bool" where
  "is_response ev = (case ev of Read (Inr msg) ks werr \<Rightarrow> Func msg = '''' | _ \<Rightarrow> False)"

subsection \<open>Registration, in the words of the specification\<close>

text \<open>
  A method qualifies when it is exported, has at least two declared parameters beyond the
  receiver, the second of them of a pointer type, and returns exactly one value, of the
  type \<^verbatim>\<open>error\<close>.
\<close>

definition qualifies :: "'v Method \<Rightarrow> bool" where
  "qualifies m \<longleftrightarrow>
     (let params = tl (In m)
      in PkgPath m = '''' \<and> 2 \<le> length params \<and> KindOf (params ! 1) = Ptr
         \<and> Out m = [ErrorType])"

text \<open>The registry entry of a method and the key it is stored under.\<close>

definition entry :: "'v Object \<Rightarrow> 'v Method \<Rightarrow> 'v function_t" where
  "entry object m =
     \<lparr>fn_receiver = object, fn_method = m, fn_args = In m ! 1, fn_reply = Elem (In m ! 2)\<rparr>"

definition key :: "string \<Rightarrow> 'v Method \<Rightarrow> string" where
  "key service m = service @ ''.'' @ Name m"

text \<open>
  The service name: the one given, or else the name of the type of the receiver, a
  pointer followed once.
\<close>

definition service_name :: "'v Object \<Rightarrow> string \<Rightarrow> string" where
  "service_name object serviceName =
     (if serviceName = '''' then TypeName (Elem (obj_type object)) else serviceName)"

text \<open>
  A second service for the registration examples: \<^verbatim>\<open>Peer\<close> with the method
  \<^verbatim>\<open>Address(request *nothing, reply *Address, ws *websocket.Conn) error\<close> of the tests,
  and with it an unexported method, a method with one parameter, one whose reply is not
  a pointer and one with no result.
\<close>

definition Address :: "unit Method" where
  "Address = \<lparr>Name = ''Address'', PkgPath = '''',
              In = [Defined ''main'' ''Peer'', PtrTo (Defined ''main'' ''nothing''),
                    PtrTo (Defined ''main'' ''Address''),
                    PtrTo (Defined ''websocket'' ''Conn'')],
              Out = [ErrorType], Call = (\<lambda>args. (None, ()))\<rparr>"

definition Peer :: "unit Object" where
  "Peer = \<lparr>obj_type = PtrTo (Defined ''main'' ''Peer''), obj_nil = False, obj_value = (),
           obj_methods =
             [Address,
              Address\<lparr>Name := ''hidden'', PkgPath := ''main''\<rparr>,
              Address\<lparr>Name := ''One'', In := [Defined ''main'' ''Peer'', ErrorType]\<rparr>,
              Address\<lparr>Name := ''Value'',
                       In := [Defined ''main'' ''Peer'', ErrorType, Defined ''main'' ''Address'']\<rparr>,
              Address\<lparr>Name := ''Void'', Out := []\<rparr>]\<rparr>"

section \<open>Requests\<close>

lemma foldl_snoc_id: "foldl (\<lambda>funcs k. funcs @ [k]) acc ks = acc @ ks"
  by (induction ks arbitrary: acc) simp_all

lemmas example_defs =
  fresh_def NewEndpoint_def dummyRegistry_def NewRegistry_def request_def response_def
  json_codec_def WordLength_Len_def WordLength_def Len_def

text \<open>
  Claim C5. A request whose \<^verbatim>\<open>Func\<close> is not empty, not \<^verbatim>\<open>"getMethods"\<close> and
  not in the registry is answered with one message that has the ID of the request, an
  empty \<^verbatim>\<open>Func\<close>, no \<^verbatim>\<open>Args\<close>, no \<^verbatim>\<open>Result\<close> and the error
  \<^verbatim>\<open>"No such function."\<close>; nothing else changes, so no handler task is started.
\<close>

theorem unknown_function_reply:
  assumes "Func msg \<noteq> ''''" and "Func msg \<noteq> ''getMethods''"
    and "reg_functions (server_registry e) (Func msg) = None"
  shows "serve_request e msg ks werr =
           (werr, e\<lparr>written := written e @
              [\<lparr>ID = ID msg, Func = '''', Args = None, Result = None,
                Error = Some \<lparr>Msg = ''No such function.''\<rparr>\<rparr>]\<rparr>)
         \<and> server_tasks (snd (serve_request e msg ks werr)) = server_tasks e"
  using assms by (cases werr) (simp_all add: serve_request_def send_def)

theorem unknown_function_reply_witness:
  "Func (request 7 ''Does.NotExist'') \<noteq> '''' \<and> Func (request 7 ''Does.NotExist'') \<noteq> ''getMethods''
   \<and> reg_functions (server_registry fresh) (Func (request 7 ''Does.NotExist'')) = None
   \<and> written (snd (serve_request fresh (request 7 ''Does.NotExist'') [] None)) =
       [\<lparr>ID = 7, Func = '''', Args = None, Result = None,
         Error = Some \<lparr>Msg = ''No such function.''\<rparr>\<rparr>]"
proof -
  have h: "Func (request 7 ''Does.NotExist'') \<noteq> ''''"
    "Func (request 7 ''Does.NotExist'') \<noteq> ''getMethods''"
    "reg_functions (server_registry fresh) (Func (request 7 ''Does.NotExist'')) = None"
    by (simp_all add: example_defs)
  show ?thesis
    using h unknown_function_reply [OF h, of "[]" None] by (simp add: example_defs)
qed

text \<open>
  Claim C6. A request for \<^verbatim>\<open>"getMethods"\<close> is answered with one message that has the
  ID of the request, an empty \<^verbatim>\<open>Func\<close>, no error, and as \<^verbatim>\<open>Result\<close> the list of
  the keys of the registry, each once, in the order the range over the map visits them;
  no handler task is started, and with an empty registry the list is empty.
\<close>

theorem getMethods_reply:
  assumes "Func msg = ''getMethods''"
    and "range_order (reg_functions (server_registry e)) ks"
  shows "serve_request e msg ks werr =
           (werr, e\<lparr>written := written e @
              [\<lparr>ID = ID msg, Func = '''', Args = None, Result = Some (Strings ks),
                Error = None\<rparr>]\<rparr>)
         \<and> set ks = dom (reg_functions (server_registry e)) \<and> distinct ks
         \<and> (reg_functions (server_registry e) = Map.empty \<longrightarrow> ks = [])
         \<and> server_tasks (snd (serve_request e msg ks werr)) = server_tasks e"
  using assms by (auto simp add: serve_request_def send_def foldl_snoc_id range_order_def)

theorem getMethods_reply_witness:
  "Func (request 5 ''getMethods'') = ''getMethods''
   \<and> range_order (reg_functions (server_registry fresh)) []
   \<and> reg_functions (server_registry fresh) = Map.empty
   \<and> written (snd (serve_request fresh (request 5 ''getMethods'') [] None)) =
       [\<lparr>ID = 5, Func = '''', Args = None, Result = Some (Strings []), Error = None\<rparr>]"
proof -
  have h: "Func (request 5 ''getMethods'') = ''getMethods''"
    "range_order (reg_functions (server_registry fresh)) []"
    by (simp_all add: example_defs range_order_def)
  show ?thesis
    using h getMethods_reply [OF h, of None] by (simp add: example_defs)
qed

lemma written_send_or_close:
  "written (send_or_close e m werr) = written e @ [m]"
  by (cases werr) (simp_all add: send_or_close_def send_def codec_Close_def)

lemma written_reply_error:
  "written (reply_error e msg err werr) =
     written e @ [\<lparr>ID = ID msg, Func = '''', Args = None, Result = None,
                   Error = Some \<lparr>Msg = err\<rparr>\<rparr>]"
  by (simp add: reply_error_def written_send_or_close)

lemma call_written:
  "call c e fn msg werr = Returns e' \<Longrightarrow>
     \<exists>m. written e' = written e @ [m] \<and> result_xor_error m \<and> ID m = ID msg \<and> Func m = ''''"
  unfolding call_def Let_def
  by (auto simp add: written_reply_error written_send_or_close result_xor_error_def
      split: prod.splits option.splits if_splits)

lemma serve_request_written:
  "\<exists>ms. written (snd (serve_request e msg ks werr)) = written e @ ms \<and> length ms \<le> 1
     \<and> list_all (\<lambda>m. result_xor_error m \<and> ID m = ID msg \<and> Func m = '''') ms"
  unfolding serve_request_def Let_def
  by (cases werr) (auto simp add: send_def result_xor_error_def split: option.splits)

text \<open>
  Claim C8. \<^verbatim>\<open>serve_request\<close> writes at most one message (the reply to getMethods or
  to an unknown function) and a handler task that returns writes exactly one (handler
  success, handler error, argument decoding error, argument filling error). Each of these
  messages has exactly one of \<^verbatim>\<open>Result\<close> and \<^verbatim>\<open>Error\<close> set, carries the ID of
  the request and an empty \<^verbatim>\<open>Func\<close>.
\<close>

theorem response_has_result_xor_error:
  "(\<exists>ms. written (snd (serve_request e msg ks werr)) = written e @ ms \<and> length ms \<le> 1
      \<and> list_all (\<lambda>m. result_xor_error m \<and> ID m = ID msg \<and> Func m = '''') ms)
   \<and> (case call c e fn msg werr of
         Panics p \<Rightarrow> True
       | Returns e' \<Rightarrow>
           (\<exists>m. written e' = written e @ [m] \<and> result_xor_error m \<and> ID m = ID msg
              \<and> Func m = ''''))"
  using serve_request_written [of e msg ks werr] call_written [of c e fn msg werr]
  by (auto split: outcome.splits)

theorem response_has_result_xor_error_witness:
  "result_xor_error \<lparr>ID = 7, Func = '''', Args = None, Result = None,
       Error = Some \<lparr>Msg = ''No such function.''\<rparr>\<rparr>
   \<and> result_xor_error \<lparr>ID = 42, Func = '''', Args = None, Result = Some (Val ()), Error = None\<rparr>"
  using response_has_result_xor_error [of fresh "request 7 ''Does.NotExist''"
      "[]" None json_codec WordLength_Len]
    response_has_result_xor_error [of fresh "request 42 ''WordLength.Len''"
      "[]" None json_codec WordLength_Len]
  by (simp add: example_defs serve_request_def send_def call_def send_or_close_def
      result_xor_error_def)

text \<open>
  Claim C1. The claim says that a request with ID 0 gets no response. The code answers it
  like any other request: an endpoint whose registry holds \<^verbatim>\<open>WordLength.Len\<close> reads
  three requests with ID 0, for an unknown function, for getMethods and for
  \<^verbatim>\<open>WordLength.Len\<close>, and the handler task runs; the endpoint has then written
  three responses with ID 0.
\<close>

theorem request_with_ID_0_is_answered:
  "case run json_codec (Serve_start (NewEndpoint (Some WordLength_registry) 0) 0)
          [Read (Inr (request 0 ''Does.NotExist'')) [''WordLength.Len''] None,
           Read (Inr (request 0 ''getMethods'')) [''WordLength.Len''] None,
           Read (Inr (request 0 ''WordLength.Len'')) [''WordLength.Len''] None,
           Handler 0 None] of
     Panics p \<Rightarrow> False
   | Returns s \<Rightarrow>
       written (ep s) =
         [\<lparr>ID = 0, Func = '''', Args = None, Result = None,
           Error = Some \<lparr>Msg = ''No such function.''\<rparr>\<rparr>,
          \<lparr>ID = 0, Func = '''', Args = None, Result = Some (Strings [''WordLength.Len'']),
           Error = None\<rparr>,
          \<lparr>ID = 0, Func = '''', Args = None, Result = Some (Val ()), Error = None\<rparr>]
       \<and> readError s = None"
  by (simp add: example_defs WordLength_registry_def Serve_start_def step_def reader_def
      serve_request_def send_def call_def send_or_close_def without_def)

section \<open>Calls\<close>

lemma Go_Returns:
  assumes "Go e func args reply done = Returns (callp, e')"
  shows "callp = next_call e"
    and "client_seq e' = client_seq e + 1"
    and "client_pending e' = (client_pending e)(client_seq e + 1 \<mapsto> callp)"
    and "send_tasks e' = send_tasks e @
           [\<lparr>ID = client_seq e + 1, Func = func, Args = args, Result = None, Error = None\<rparr>]"
    and "written e' = written e"
    and "server_tasks e' = server_tasks e"
  using assms
  by (auto simp add: Go_def new_call_def make_chan_def cap_def Let_def
      split: option.splits if_splits)

lemma Go_nil_done:
  "\<exists>callp e'. Go e func args reply None = Returns (callp, e')"
  by (simp add: Go_def new_call_def make_chan_def Let_def)

lemma word_succ_less: "(x :: uint64) \<noteq> - 1 \<Longrightarrow> x < x + 1 \<and> x + 1 \<noteq> 0"
  by (metis add_neg_numeral_special(8) add_right_cancel inc_less_eq_self_iff_eq
      verit_comp_simplify1(3))

subsection \<open>What the server side leaves alone\<close>

lemma same_client_refl [simp]: "same_client e e"
  by (simp add: same_client_def)

lemma same_client_trans: "same_client e e' \<Longrightarrow> same_client e' e'' \<Longrightarrow> same_client e e''"
  by (simp add: same_client_def)

lemma same_client_send_or_close [simp]: "same_client e (send_or_close e m werr)"
  by (cases werr) (simp_all add: same_client_def send_or_close_def send_def codec_Close_def)

lemma same_client_reply_error [simp]: "same_client e (reply_error e msg err werr)"
  by (simp add: reply_error_def)

lemma same_client_serve_request: "same_client e (snd (serve_request e msg ks werr))"
  unfolding serve_request_def Let_def
  by (cases werr) (auto simp add: same_client_def send_def split: option.splits)

lemma same_client_call: "call c e fn msg werr = Returns e' \<Longrightarrow> same_client e e'"
  unfolding call_def Let_def
  by (auto split: prod.splits option.splits if_splits)

lemma same_client_run_send: "same_client e (run_send e i werr)"
  by (simp add: run_send_def same_client_def send_def)

lemma same_client_heartbeat: "same_client (ep s) (ep (heartbeat s now perr))"
  by (simp add: heartbeat_def Let_def same_client_def split: option.splits)

lemma serve_response_client:
  "client_seq (snd (serve_response c e msg)) = client_seq e
   \<and> client_pending (snd (serve_response c e msg)) = (client_pending e)(ID msg := None)"
  unfolding serve_response_def Let_def
  by (auto simp add: set_call_def try_send_def split: option.splits prod.splits)

lemma step_same_client:
  assumes "step c s ev = Returns s'" and "\<not> is_response ev"
  shows "same_client (ep s) (ep s')"
proof (cases ev)
  case (Tick now perr)
  with assms show ?thesis by (auto simp add: step_def same_client_heartbeat)
next
  case (Pong now)
  with assms show ?thesis by (auto simp add: step_def pong_handler_def same_client_def)
next
  case (Read r ks werr)
  show ?thesis
  proof (cases r)
    case (Inl err)
    with Read assms show ?thesis by (auto simp add: step_def reader_def)
  next
    case (Inr msg)
    with Read assms have f: "Func msg \<noteq> ''''" by (simp add: is_response_def)
    show ?thesis
      using Read Inr assms f same_client_serve_request [of "ep s" msg ks werr]
      by (auto simp add: step_def reader_def split: prod.splits option.splits)
  qed
next
  case (Handler i werr)
  with assms show ?thesis
    by (auto simp add: step_def same_client_def split: if_splits prod.splits outcome.splits
        dest!: same_client_call)
next
  case (Sender i werr)
  with assms show ?thesis by (auto simp add: step_def same_client_run_send)
qed

lemma run_same_client:
  "run c s evs = Returns s' \<Longrightarrow> \<forall>ev \<in> set evs. \<not> is_response ev \<Longrightarrow> same_client (ep s) (ep s')"
proof (induction evs arbitrary: s)
  case Nil then show ?case by simp
next
  case (Cons ev evs)
  then obtain s1 where s1: "step c s ev = Returns s1" "run c s1 evs = Returns s'"
    by (auto split: outcome.splits)
  with Cons show ?case
    using step_same_client [OF s1(1)] same_client_trans by fastforce
qed

lemma step_client_seq:
  assumes "step c s ev = Returns s'"
  shows "client_seq (ep s') = client_seq (ep s)
     \<and> dom (client_pending (ep s')) \<subseteq> dom (client_pending (ep s))"
proof (cases "is_response ev")
  case False
  then show ?thesis using step_same_client [OF assms] by (simp add: same_client_def)
next
  case True
  then obtain msg ks werr where ev: "ev = Read (Inr msg) ks werr" "Func msg = ''''"
    by (auto simp add: is_response_def split: event.splits sum.splits)
  show ?thesis
    using assms ev serve_response_client [of c "ep s" msg]
    by (auto simp add: step_def reader_def split: prod.splits option.splits if_splits)
qed

lemma pending_bounded_subset:
  assumes "pending_bounded e" and "client_seq e' = client_seq e"
    and "dom (client_pending e') \<subseteq> dom (client_pending e)"
  shows "pending_bounded e'"
  unfolding pending_bounded_def
proof
  fix k assume "k \<in> dom (client_pending e')"
  with assms(3) have "k \<in> dom (client_pending e)" by blast
  with assms(1,2) show "k \<noteq> 0 \<and> k \<le> client_seq e'"
    by (simp add: pending_bounded_def)
qed

lemma step_pending_bounded:
  assumes "step c s ev = Returns s'" and "pending_bounded (ep s)"
  shows "pending_bounded (ep s')"
  using assms(2) step_client_seq [OF assms(1)] by (blast intro: pending_bounded_subset)

subsection \<open>Sequence IDs\<close>

lemma client_seq_Go_times: "client_seq (Go_times e n) = client_seq e + of_nat n"
proof (induction n)
  case 0 show ?case by simp
next
  case (Suc n)
  obtain callp e' where g: "Go (Go_times e n) ''f'' None None None = Returns (callp, e')"
    using Go_nil_done by blast
  then show ?case using Go_Returns(2) [OF g] Suc by simp
qed

lemma unat_plus_of_nat:
  fixes x :: uint64
  assumes "unat x + n < 2 ^ 64"
  shows "unat (x + of_nat n) = unat x + n"
proof -
  have n: "unat (of_nat n :: uint64) = n"
    using assms by (simp add: unat_of_nat)
  have "unat x + unat (of_nat n :: uint64) < 2 ^ LENGTH(64)"
    using assms n by simp
  then have "unat (x + of_nat n) = unat x + unat (of_nat n :: uint64)"
    by (simp only: unat_add_lem)
  with n show ?thesis by simp
qed

lemma pending_bounded_NewEndpoint: "pending_bounded (NewEndpoint registry now)"
  by (simp add: pending_bounded_def NewEndpoint_def)

lemma dom_remove_call: "dom (remove_call p callp ks) \<subseteq> dom p"
  by (induction ks) auto

lemma pending_bounded_select:
  assumes "CallWithDeadline_select e callp ctx_done pick ks = Some (err, e')"
    and "pending_bounded e"
  shows "pending_bounded e' \<and> client_seq e' = client_seq e"
proof -
  have "client_seq e' = client_seq e \<and> dom (client_pending e') \<subseteq> dom (client_pending e)"
    using assms(1) dom_remove_call [of "client_pending e" callp ks]
    by (auto simp add: CallWithDeadline_select_def Call_wait_def recv_def Let_def
        split: if_splits option.splits list.splits) blast+
  with assms(2) show ?thesis
    by (blast intro: pending_bounded_subset)
qed

text \<open>
  Claim C7, as amended. While the counter \<^verbatim>\<open>client.seq\<close> has not reached
  \<open>2\<^sup>6\<^sup>4 - 1\<close>, a call of \<^verbatim>\<open>Go\<close> that returns assigns the ID \<open>client_seq e + 1\<close>,
  which is not 0 and greater than the counter before, that is, greater than the ID of
  the call before (the counter holds the last ID assigned: only \<^verbatim>\<open>Go\<close> writes it,
  see \<open>step_client_seq\<close>). In the same step, which the code runs under
  \<^verbatim>\<open>client.mutex\<close>, the pending entry is installed under that ID; the message is
  only queued for the task that writes it and nothing has been written yet. The ID is
  not in the pending table before, so no entry is overwritten, and the keys of the table
  stay IDs that were handed out. The last line is about \<open>n\<close> calls in a row: while the
  counter stays below \<open>2\<^sup>6\<^sup>4\<close>, the \<open>n\<close>-th of them is assigned the ID
  \<open>client_seq e + n\<close>, so the IDs increase by one from call to call.
\<close>

theorem Go_assigns_next_ID:
  assumes "Go e func args reply done = Returns (callp, e')"
    and "client_seq e \<noteq> - 1"
    and "pending_bounded e"
  shows "client_seq e' = client_seq e + 1 \<and> client_seq e < client_seq e' \<and> client_seq e' \<noteq> 0
     \<and> client_pending e (client_seq e') = None
     \<and> client_pending e' = (client_pending e)(client_seq e' \<mapsto> callp)
     \<and> send_tasks e' = send_tasks e @
           [\<lparr>ID = client_seq e', Func = func, Args = args, Result = None, Error = None\<rparr>]
     \<and> written e' = written e
     \<and> pending_bounded e'
     \<and> (unat (client_seq e) + n < 2 ^ 64 \<longrightarrow>
          unat (client_seq (Go_times e n)) = unat (client_seq e) + n)"
proof -
  note G = Go_Returns [OF assms(1)]
  have lt: "client_seq e < client_seq e + 1" and nz: "client_seq e + 1 \<noteq> 0"
    using word_succ_less [OF assms(2)] by simp_all
  have unused: "client_pending e (client_seq e + 1) = None"
  proof (rule ccontr)
    assume "client_pending e (client_seq e + 1) \<noteq> None"
    then have "client_seq e + 1 \<in> dom (client_pending e)" by auto
    with assms(3) have "client_seq e + 1 \<le> client_seq e" by (simp add: pending_bounded_def)
    with lt show False by simp
  qed
  have bounded: "pending_bounded e'"
    unfolding pending_bounded_def
  proof
    fix k assume "k \<in> dom (client_pending e')"
    then have "k = client_seq e + 1 \<or> k \<in> dom (client_pending e)"
      by (auto simp add: G(3) split: if_splits)
    then show "k \<noteq> 0 \<and> k \<le> client_seq e'"
    proof
      assume "k = client_seq e + 1" then show ?thesis using nz by (simp add: G(2))
    next
      assume "k \<in> dom (client_pending e)"
      with assms(3) have "k \<noteq> 0" "k \<le> client_seq e" by (simp_all add: pending_bounded_def)
      then show ?thesis using lt by (simp add: G(2))
    qed
  qed
  have many: "unat (client_seq (Go_times e n)) = unat (client_seq e) + n"
    if "unat (client_seq e) + n < 2 ^ 64"
    using that by (simp add: client_seq_Go_times unat_plus_of_nat)
  show ?thesis using G lt nz unused bounded many by simp
qed

theorem Go_assigns_next_ID_witness:
  "\<exists>callp e'. Go fresh ''WordLength.Len'' None None None = Returns (callp, e')
     \<and> client_seq fresh \<noteq> - 1 \<and> pending_bounded fresh
     \<and> client_seq e' = 1 \<and> client_pending e' 1 = Some callp \<and> written e' = []
     \<and> map ID (send_tasks e') = [1]
     \<and> unat (client_seq (Go_times fresh 3)) = 3"
proof -
  obtain callp e' where g: "Go fresh ''WordLength.Len'' None None None = Returns (callp, e')"
    using Go_nil_done by blast
  have h: "client_seq fresh \<noteq> - 1" "pending_bounded fresh"
    by (simp_all add: example_defs pending_bounded_def)
  show ?thesis
    using g h Go_assigns_next_ID [OF g h, of 3] by (simp add: example_defs)
qed

lemma max_uint64: "(word_of_nat (2 ^ 64 - 1) :: uint64) = - 1"
  by simp

text \<open>
  Claim C7 as stated fails when the counter wraps: after \<open>2\<^sup>6\<^sup>4 - 1\<close> calls on a new
  endpoint the counter is \<open>2\<^sup>6\<^sup>4 - 1\<close>, and the next call of \<^verbatim>\<open>Go\<close> is assigned the
  ID 0, which is neither non-zero nor greater than the ID before it.
\<close>

theorem Go_wraps_to_ID_0:
  "client_seq (Go_times fresh (2 ^ 64 - 1)) = - 1
   \<and> (case Go (Go_times fresh (2 ^ 64 - 1)) ''f'' None None None of
         Panics p \<Rightarrow> False
       | Returns (callp, e') \<Rightarrow> client_seq e' = 0 \<and> ID (last (send_tasks e')) = 0)"
proof -
  let ?e = "Go_times fresh (2 ^ 64 - 1)"
  have s: "client_seq ?e = - 1"
    unfolding client_seq_Go_times max_uint64 by (simp add: example_defs)
  obtain callp e' where g: "Go ?e ''f'' None None None = Returns (callp, e')"
    using Go_nil_done by blast
  have "client_seq e' = 0" "ID (last (send_tasks e')) = 0"
    using Go_Returns(2,4) [OF g] s by simp_all
  with s g show ?thesis by simp
qed

subsection \<open>Addresses of calls\<close>

text \<open>
  A call that \<^verbatim>\<open>Go\<close> has just issued is in the pending table under its ID only:
  its address is new.
\<close>

lemma Go_entry_unique:
  assumes "Go e func args reply done = Returns (callp, e')" and "pending_allocated e"
  shows "\<forall>k'. client_pending e' k' = Some callp \<longrightarrow> k' = client_seq e'"
    and "pending_allocated e'"
proof -
  have n: "callp = next_call e" "next_call e' = Suc (next_call e)"
    "client_pending e' = (client_pending e)(client_seq e' \<mapsto> callp)"
    using assms(1)
    by (auto simp add: Go_def new_call_def make_chan_def cap_def Let_def
        split: option.splits if_splits)
  have old: "a < next_call e" if "client_pending e k = Some a" for k a
    using that assms(2) by (auto simp add: pending_allocated_def ran_def)
  show "\<forall>k'. client_pending e' k' = Some callp \<longrightarrow> k' = client_seq e'"
    using old n by (auto split: if_splits)
  show "pending_allocated e'"
    unfolding pending_allocated_def
  proof
    fix a assume "a \<in> ran (client_pending e')"
    then obtain k where "client_pending e' k = Some a" by (auto simp add: ran_def)
    then have "a = callp \<or> client_pending e k = Some a"
      by (auto simp add: n(3) split: if_splits)
    then show "a < next_call e'" using old n(1,2) by (auto simp add: less_Suc_eq)
  qed
qed

section \<open>Responses\<close>

lemma serve_response_unknown:
  assumes "client_pending e (ID msg) = None"
  shows "serve_response c e msg =
           (Some (''Server responded with unknown seq '' @ show_nat (unat (ID msg))), e)"
proof -
  have "(client_pending e)(ID msg := None) = client_pending e"
    using assms by (simp add: fun_upd_idem_iff)
  then show ?thesis using assms by (simp add: serve_response_def)
qed

lemma show_nat_1: "show_nat (Suc 0) = ''1''"
  by code_simp

text \<open>
  Claim C3. When the reader reads a response whose ID has no entry in the pending table,
  \<^verbatim>\<open>serve_response\<close> returns the error \<^verbatim>\<open>Server responded with unknown seq\<close>
  followed by the ID and leaves the endpoint as it is; the reader returns that error and
  reads nothing more; the select of \<^verbatim>\<open>Serve\<close> is then ready, and it yields this
  error unless the heartbeat task has returned an error too; once the handler tasks are
  done \<^verbatim>\<open>Serve\<close> closes the codec and returns it.
\<close>

theorem unknown_response_is_fatal:
  assumes "Func msg = ''''" and "client_pending (ep s) (ID msg) = None"
    and "readError s = None"
    and "d = ''Server responded with unknown seq '' @ show_nat (unat (ID msg))"
  shows "serve_response c (ep s) msg = (Some d, ep s)
     \<and> step c s (Read (Inr msg) ks werr) = Returns (s\<lparr>readError := Some d\<rparr>)
     \<and> step c (s\<lparr>readError := Some d\<rparr>) (Read r ks' werr') = Returns (s\<lparr>readError := Some d\<rparr>)
     \<and> Serve_select (s\<lparr>readError := Some d\<rparr>) pick \<noteq> None
     \<and> (pingpongError s = None \<longrightarrow> Serve_select (s\<lparr>readError := Some d\<rparr>) pick = Some d)
     \<and> (pingpongError s = None \<and> server_tasks (ep s) = [] \<longrightarrow>
          Serve_return (s\<lparr>readError := Some d\<rparr>) pick = Some (d, codec_Close (ep s)))"
  using assms serve_response_unknown [of "ep s" msg c]
  by (auto simp add: step_def reader_def Serve_select_def Serve_return_def split: option.splits)

theorem unknown_response_is_fatal_witness:
  "Func (response 1) = '''' \<and> client_pending (ep (Serve_start fresh 0)) (ID (response 1)) = None
   \<and> readError (Serve_start fresh 0) = None
   \<and> step json_codec (Serve_start fresh 0) (Read (Inr (response 1)) [] None) =
       Returns ((Serve_start fresh 0)\<lparr>readError := Some ''Server responded with unknown seq 1''\<rparr>)
   \<and> Serve_return ((Serve_start fresh 0)\<lparr>readError := Some ''Server responded with unknown seq 1''\<rparr>)
        False = Some (''Server responded with unknown seq 1'', codec_Close fresh)"
proof -
  have h: "Func (response 1) = ''''"
    "client_pending (ep (Serve_start fresh 0)) (ID (response 1)) = None"
    "readError (Serve_start fresh 0) = None"
    "''Server responded with unknown seq 1'' =
       ''Server responded with unknown seq '' @ show_nat (unat (ID (response 1)))"
    by (simp_all add: example_defs Serve_start_def show_nat_1)
  show ?thesis
    using h(1-3) unknown_response_is_fatal [OF h, of json_codec "[]" None "Inl []" "[]" None False]
    by (simp add: Serve_start_def example_defs)
qed

subsection \<open>The deadline\<close>

lemma remove_call_unique:
  assumes "k \<in> set ks" and "p k = Some callp" and "\<forall>k'. p k' = Some callp \<longrightarrow> k' = k"
  shows "remove_call p callp ks = p(k := None)"
  using assms(1)
proof (induction ks)
  case Nil
  then show ?case by simp
next
  case (Cons a ks)
  show ?case
  proof (cases "p a = Some callp")
    case True
    with assms(3) have "a = k" by blast
    with True show ?thesis by simp
  next
    case False
    with assms(2) have "a \<noteq> k" by auto
    with Cons False show ?thesis by simp
  qed
qed

text \<open>
  Claim C2, as amended. The state \<open>e\<close> is the endpoint when the deadline passes: the call
  is pending under the ID \<open>k\<close>, and under no other (\<open>Go_entry_unique\<close>), and no
  response for it has arrived, so its channel \<^verbatim>\<open>Done\<close> is empty. Then \<^verbatim>\<open>CallWithDeadline\<close> returns the error
  \<^verbatim>\<open>birpc: call timeout, dont resend\<close> and removes the entry of that call from the
  pending table, and nothing else. A response with the ID \<open>k\<close> that the reader reads after
  that finds no entry: \<^verbatim>\<open>serve_response\<close> returns the error of an unknown ID, with
  which the reader stops (claim C3); the response changes nothing else in the endpoint.
\<close>

theorem deadline_removes_pending_entry:
  assumes "client_pending e k = Some callp"
    and "\<forall>k'. client_pending e k' = Some callp \<longrightarrow> k' = k"
    and "range_order (client_pending e) ks"
    and "recv e (call_Done (get_call e callp)) = None"
    and "Func msg = ''''" and "ID msg = k"
    and "e' = e\<lparr>client_pending := (client_pending e)(k := None)\<rparr>"
    and "d = ''Server responded with unknown seq '' @ show_nat (unat k)"
  shows "CallWithDeadline_select e callp True pick ks =
           Some (Some ''birpc: call timeout, dont resend'', e')
     \<and> client_pending e' k = None
     \<and> serve_response c e' msg = (Some d, e')
     \<and> reader c \<lparr>ep = e', pingpongError = pp, readError = None\<rparr> (Inr msg) ks' werr =
         \<lparr>ep = e', pingpongError = pp, readError = Some d\<rparr>"
proof -
  have "k \<in> set ks" using assms(1,3) by (auto simp add: range_order_def)
  then have rm: "remove_call (client_pending e) callp ks = (client_pending e)(k := None)"
    using assms(1,2) by (rule remove_call_unique)
  have sel: "CallWithDeadline_select e callp True pick ks =
               Some (Some ''birpc: call timeout, dont resend'', e')"
    using assms(4,7) rm by (simp add: CallWithDeadline_select_def)
  have gone: "client_pending e' (ID msg) = None" using assms(6,7) by simp
  have resp: "serve_response c e' msg = (Some d, e')"
    using serve_response_unknown [OF gone, of c] assms(6,8) by simp
  have "reader c \<lparr>ep = e', pingpongError = pp, readError = None\<rparr> (Inr msg) ks' werr =
          \<lparr>ep = e', pingpongError = pp, readError = Some d\<rparr>"
    using resp assms(5) by (simp add: reader_def)
  with sel gone resp assms(6) show ?thesis by simp
qed

text \<open>
  Claim C2 as stated fails in its last part: the late response is not dropped silently.
  A call is issued on a new endpoint and gets the ID 1, its deadline passes, and then the
  response with ID 1 is read: the reader stops with an error and \<^verbatim>\<open>Serve\<close> returns it.
\<close>

theorem late_response_ends_Serve:
  "case Call_start fresh ''WordLength.Len'' None None of
     Panics p \<Rightarrow> False
   | Returns (callp, e1) \<Rightarrow>
       (case CallWithDeadline_select e1 callp True False [1] of
          None \<Rightarrow> False
        | Some (err, e2) \<Rightarrow>
            err = Some ''birpc: call timeout, dont resend'' \<and>
            (case step json_codec (Serve_start e2 0) (Read (Inr (response 1)) [] None) of
               Panics p \<Rightarrow> False
             | Returns s \<Rightarrow>
                 readError s = Some ''Server responded with unknown seq 1''
                 \<and> Serve_return s False =
                     Some (''Server responded with unknown seq 1'', codec_Close e2)))"
  by (simp add: example_defs Call_start_def make_chan_def Go_def new_call_def cap_def
      CallWithDeadline_select_def recv_def get_call_def step_def Serve_start_def reader_def
      serve_response_def show_nat_1 Serve_return_def Serve_select_def)

lemma Call_start_Returns:
  assumes "Call_start e func args reply = Returns (callp, e1)"
  shows "Go (snd (make_chan e 1)) func args reply (Some (next_chan e)) = Returns (callp, e1)"
    and "callp = next_call e"
    and "calls e1 callp = Some \<lparr>call_ServiceMethod = func, call_Args = args, call_Reply = reply,
                                 call_Error = None, call_Done = next_chan e\<rparr>"
    and "chans e1 (next_chan e) = Some \<lparr>chan_cap = 1, chan_buf = []\<rparr>"
    and "client_pending e1 = (client_pending e)(client_seq e + 1 \<mapsto> callp)"
  using assms
  by (auto simp add: Call_start_def Go_def new_call_def make_chan_def cap_def Let_def
      split: if_splits)

lemma Call_start_fresh:
  "\<exists>callp e1. Call_start fresh func args reply = Returns (callp, e1)"
  by (simp add: Call_start_def Go_def new_call_def make_chan_def cap_def Let_def)

theorem deadline_removes_pending_entry_witness:
  "\<exists>callp e. Call_start fresh ''WordLength.Len'' None None = Returns (callp, e)
     \<and> client_pending e 1 = Some callp
     \<and> client_pending e = [1 \<mapsto> callp]
     \<and> range_order (client_pending e) [1]
     \<and> recv e (call_Done (get_call e callp)) = None
     \<and> Func (response 1) = '''' \<and> ID (response 1) = 1
     \<and> CallWithDeadline_select e callp True False [1] =
          Some (Some ''birpc: call timeout, dont resend'',
                e\<lparr>client_pending := (client_pending e)(1 := None)\<rparr>)
     \<and> serve_response json_codec (e\<lparr>client_pending := (client_pending e)(1 := None)\<rparr>)
          (response 1) =
          (Some ''Server responded with unknown seq 1'',
           e\<lparr>client_pending := (client_pending e)(1 := None)\<rparr>)"
proof -
  obtain callp e where g: "Call_start fresh ''WordLength.Len'' None None = Returns (callp, e)"
    using Call_start_fresh by blast
  note C = Call_start_Returns [OF g]
  have p: "client_pending e = Map.empty(1 \<mapsto> callp)"
    using C(5) by (simp add: example_defs)
  have h: "client_pending e 1 = Some callp"
    "\<forall>k'. client_pending e k' = Some callp \<longrightarrow> k' = 1"
    "range_order (client_pending e) [1]"
    "recv e (call_Done (get_call e callp)) = None"
    "Func (response 1) = ''''" "ID (response 1) = 1"
    "e\<lparr>client_pending := (client_pending e)(1 := None)\<rparr> =
       e\<lparr>client_pending := (client_pending e)(1 := None)\<rparr>"
    "''Server responded with unknown seq 1'' =
       ''Server responded with unknown seq '' @ show_nat (unat (1 :: uint64))"
    using C(3,4) by (simp_all add: p range_order_def recv_def get_call_def response_def show_nat_1)
  show ?thesis
    using g p h(1,3-6) deadline_removes_pending_entry [OF h, of False json_codec None "[]" None]
    by simp
qed

subsection \<open>The write of a call\<close>

lemma run_send_drops_error: "run_send e i werr = run_send e i None"
  by (simp add: run_send_def send_def)

text \<open>
  Claim C10. \<^verbatim>\<open>Go\<close> writes nothing itself: it queues the message for a task of its
  own. That task drops what the write returns: whatever the result \<open>werr\<close>, it does the
  same as after a write without error. Let the endpoint then run through any events
  among which the reader reads no response (as on a dead transport, where every write
  fails and every read returns an error): the pending entry of the call stays, the calls
  and so the error of this call, which is nil, stay as they are, and no channel is sent
  to. If the call was issued by \<^verbatim>\<open>Call\<close>, its receive from \<^verbatim>\<open>Done\<close> still blocks
  after all these events.
\<close>

theorem failed_write_is_not_reported:
  assumes "Go e func args reply done = Returns (callp, e1)"
    and "run c \<lparr>ep = e1, pingpongError = pp, readError = rd\<rparr> evs = Returns s'"
    and "\<forall>ev \<in> set evs. \<not> is_response ev"
  shows "written e1 = written e
     \<and> send_tasks e1 = send_tasks e @
          [\<lparr>ID = client_seq e1, Func = func, Args = args, Result = None, Error = None\<rparr>]
     \<and> run_send e1 i werr = run_send e1 i None
     \<and> client_pending (ep s') (client_seq e1) = Some callp
     \<and> calls (ep s') = calls e1 \<and> call_Error (get_call (ep s') callp) = None
     \<and> chans (ep s') = chans e1
     \<and> (Call_start e0 func args reply = Returns (callp, e1) \<longrightarrow> Call_wait (ep s') callp = None)"
proof -
  note G = Go_Returns [OF assms(1)]
  have same: "same_client e1 (ep s')"
    using run_same_client [OF assms(2,3)] by simp
  then have eqs: "client_pending (ep s') = client_pending e1" "calls (ep s') = calls e1"
    "chans (ep s') = chans e1"
    by (simp_all add: same_client_def)
  have noerr: "call_Error (get_call e1 callp) = None"
    using assms(1)
    by (auto simp add: Go_def new_call_def make_chan_def cap_def Let_def get_call_def
        split: option.splits if_splits)
  have get: "get_call (ep s') callp = get_call e1 callp"
    by (simp add: get_call_def eqs)
  have blocked: "Call_wait (ep s') callp = None"
    if cs: "Call_start e0 func args reply = Returns (callp, e1)"
  proof -
    note C = Call_start_Returns [OF cs]
    have "recv (ep s') (call_Done (get_call (ep s') callp)) = None"
      using C(3,4) by (simp add: recv_def get_call_def eqs)
    then show ?thesis by (simp add: Call_wait_def)
  qed
  show ?thesis
    using G(2,3,4,5) eqs noerr get blocked run_send_drops_error [of e1 i werr] by simp
qed

theorem failed_write_is_not_reported_witness:
  "\<exists>callp e1 s'.
     Go (snd (make_chan fresh 1)) ''WordLength.Len'' None None (Some (next_chan fresh)) =
       Returns (callp, e1)
     \<and> Call_start fresh ''WordLength.Len'' None None = Returns (callp, e1)
     \<and> run json_codec \<lparr>ep = e1, pingpongError = None, readError = None\<rparr>
          [Sender 0 (Some ''broken pipe''), Read (Inl ''EOF'') [] None, Tick 10 (Some ''broken pipe'')]
          = Returns s'
     \<and> \<not> is_response (Sender 0 (Some ''broken pipe'') :: unit event)
     \<and> \<not> is_response (Read (Inl ''EOF'') [] None :: unit event)
     \<and> \<not> is_response (Tick 10 (Some ''broken pipe'') :: unit event)
     \<and> written (ep s') = [request 1 ''WordLength.Len'']
     \<and> client_pending (ep s') 1 = Some callp
     \<and> call_Error (get_call (ep s') callp) = None
     \<and> Call_wait (ep s') callp = None"
proof -
  obtain callp e1 where cs: "Call_start fresh ''WordLength.Len'' None None = Returns (callp, e1)"
    using Call_start_fresh by blast
  note C = Call_start_Returns [OF cs]
  let ?evs = "[Sender 0 (Some ''broken pipe''), Read (Inl ''EOF'') [] None,
               Tick 10 (Some ''broken pipe'')] :: unit event list"
  have g: "Go (snd (make_chan fresh 1)) ''WordLength.Len'' None None (Some (next_chan fresh)) =
             Returns (callp, e1)"
    by (rule C(1))
  note G = Go_Returns [OF g]
  have seq: "client_seq e1 = 1" "send_tasks e1 = [request 1 ''WordLength.Len'']"
    "written e1 = []" "lastPongTimestamp e1 = 0"
    using G(2,4,5) g
    by (auto simp add: example_defs make_chan_def Go_def new_call_def cap_def Let_def
        split: if_splits)
  obtain s' where r: "run json_codec \<lparr>ep = e1, pingpongError = None, readError = None\<rparr> ?evs
                        = Returns s'"
    by (simp add: step_def reader_def)
  have w: "written (ep s') = [request 1 ''WordLength.Len'']"
    using r seq
    by (auto simp add: step_def reader_def run_send_def send_def heartbeat_def Let_def
        without_def split: if_splits)
  have d: "\<forall>ev \<in> set ?evs. \<not> is_response ev"
    by (simp add: is_response_def)
  show ?thesis
    using cs g r d w seq(1)
      failed_write_is_not_reported [OF g r d, of 0 "Some ''broken pipe''" fresh]
    by auto
qed

section \<open>The heartbeat\<close>

lemma two_periods: "2 * Seconds pingPeriod = 20"
  by (simp add: Seconds_def pingPeriod_def Second_def)

lemma sint_plus_20:
  fixes t :: int64
  assumes "sint t + 20 < 2 ^ 63"
  shows "sint (t + 20) = sint t + 20"
proof -
  have lo: "- (2 ^ 63) \<le> sint t" using sint_ge [of t] by simp
  have "sint (t + 20) = signed_take_bit 63 (sint t + 20)"
    by (simp add: sint_word_add [where 'a = 64])
  also have "\<dots> = sint t + 20"
    using lo assms by (simp add: signed_take_bit_int_eq_self)
  finally show ?thesis .
qed

lemma heartbeat_cases:
  assumes "sint (lastPongTimestamp (ep s)) + 20 < 2 ^ 63"
  shows "heartbeat s now perr =
     (if sint (lastPongTimestamp (ep s)) + 20 < sint now
      then s\<lparr>pingpongError := Some ''remote connection is timeout.''\<rparr>
      else if perr \<noteq> None
      then s\<lparr>ep := (ep s)\<lparr>pings := Suc (pings (ep s))\<rparr>,
             pingpongError := Some ''remote connection is closed.''\<rparr>
      else s\<lparr>ep := (ep s)\<lparr>pings := Suc (pings (ep s))\<rparr>\<rparr>)"
  using sint_plus_20 [OF assms]
  by (cases perr) (simp_all add: heartbeat_def two_periods word_sless_alt Let_def)

lemma run_append:
  "run c s (evs @ evs') =
     (case run c s evs of Panics p \<Rightarrow> Panics p | Returns s' \<Rightarrow> run c s' evs')"
  by (induction evs arbitrary: s) (simp_all split: outcome.splits)

lemma quiet_ticks:
  assumes "pingpongError s = None"
    and "sint (lastPongTimestamp (ep s)) + 20 < 2 ^ 63"
    and "\<forall>now \<in> set ticks. sint now \<le> sint (lastPongTimestamp (ep s)) + 20"
  shows "run c s (map (\<lambda>now. Tick now None) ticks) =
           Returns (s\<lparr>ep := (ep s)\<lparr>pings := pings (ep s) + length ticks\<rparr>\<rparr>)"
  using assms
proof (induction ticks arbitrary: s)
  case Nil
  then show ?case by simp
next
  case (Cons now ticks)
  let ?s1 = "s\<lparr>ep := (ep s)\<lparr>pings := Suc (pings (ep s))\<rparr>\<rparr>"
  have st: "step c s (Tick now None) = Returns ?s1"
    using Cons.prems by (simp add: step_def heartbeat_cases)
  have "run c ?s1 (map (\<lambda>now. Tick now None) ticks) =
          Returns (?s1\<lparr>ep := (ep ?s1)\<lparr>pings := pings (ep ?s1) + length ticks\<rparr>\<rparr>)"
    using Cons.prems by (intro Cons.IH) simp_all
  with st show ?case by simp
qed

text \<open>
  Claim C4, as amended. The ticker has the period \<^verbatim>\<open>pingPeriod\<close> of 10 seconds. At a
  tick, while the heartbeat task runs, the task fails with
  \<^verbatim>\<open>remote connection is timeout.\<close> if the clock, in seconds, exceeds
  \<^verbatim>\<open>lastPongTimestamp\<close> plus 20, without a ping; otherwise it calls
  \<^verbatim>\<open>codec.Ping\<close> and fails with \<^verbatim>\<open>remote connection is closed.\<close> if that returns
  an error. (The sum is computed in \<^verbatim>\<open>int64\<close>; the hypothesis keeps it from
  overflowing, as it does for every time of the clock.) The first value of
  \<^verbatim>\<open>lastPongTimestamp\<close> is the time \<open>t0\<close> at which \<^verbatim>\<open>NewEndpoint\<close> made the
  endpoint, whenever \<^verbatim>\<open>Serve\<close> is entered (\<open>tS\<close>). So if no pong ever arrives, the
  heartbeat pings at every tick up to \<open>t0 + 20\<close> and fails with the timeout at the first
  tick later than that, and \<^verbatim>\<open>Serve\<close> returns this error unless the reader has
  failed as well.
\<close>

theorem heartbeat_round:
  assumes "pingpongError s = None"
    and "sint (lastPongTimestamp (ep s)) + 20 < 2 ^ 63"
    and "sint t0 + 20 < 2 ^ 63"
    and "\<forall>now \<in> set ticks. sint now \<le> sint t0 + 20"
    and "sint t0 + 20 < sint late"
    and "s0 = Serve_start (NewEndpoint registry t0) tS"
  shows "pingPeriod = 10 * Second \<and> Seconds pingPeriod = 10
     \<and> step c s (Tick now perr) = Returns
         (if sint (lastPongTimestamp (ep s)) + 2 * 10 < sint now
          then s\<lparr>pingpongError := Some ''remote connection is timeout.''\<rparr>
          else if perr \<noteq> None
          then s\<lparr>ep := (ep s)\<lparr>pings := Suc (pings (ep s))\<rparr>,
                 pingpongError := Some ''remote connection is closed.''\<rparr>
          else s\<lparr>ep := (ep s)\<lparr>pings := Suc (pings (ep s))\<rparr>\<rparr>)
     \<and> lastPongTimestamp (ep s0) = t0
     \<and> run c s0 (map (\<lambda>now. Tick now None) ticks @ [Tick late perr']) = Returns
         (s0\<lparr>ep := (ep s0)\<lparr>pings := length ticks\<rparr>,
             pingpongError := Some ''remote connection is timeout.''\<rparr>)
     \<and> Serve_select (s0\<lparr>ep := (ep s0)\<lparr>pings := length ticks\<rparr>,
             pingpongError := Some ''remote connection is timeout.''\<rparr>) pick
         = Some ''remote connection is timeout.''"
proof -
  have a: "pingPeriod = 10 * Second \<and> Seconds pingPeriod = 10"
    by (simp add: pingPeriod_def Seconds_def Second_def)
  have b: "step c s (Tick now perr) = Returns
         (if sint (lastPongTimestamp (ep s)) + 2 * 10 < sint now
          then s\<lparr>pingpongError := Some ''remote connection is timeout.''\<rparr>
          else if perr \<noteq> None
          then s\<lparr>ep := (ep s)\<lparr>pings := Suc (pings (ep s))\<rparr>,
                 pingpongError := Some ''remote connection is closed.''\<rparr>
          else s\<lparr>ep := (ep s)\<lparr>pings := Suc (pings (ep s))\<rparr>\<rparr>)"
    using assms(1) heartbeat_cases [OF assms(2), of now perr] by (simp add: step_def)
  have s0: "pingpongError s0 = None" "readError s0 = None" "lastPongTimestamp (ep s0) = t0"
    "pings (ep s0) = 0"
    by (simp_all add: assms(6) Serve_start_def NewEndpoint_def)
  let ?s1 = "s0\<lparr>ep := (ep s0)\<lparr>pings := length ticks\<rparr>\<rparr>"
  have q: "run c s0 (map (\<lambda>now. Tick now None) ticks) = Returns ?s1"
    using quiet_ticks [of s0 ticks c] s0 assms(3,4) by simp
  have l: "step c ?s1 (Tick late perr') =
             Returns (?s1\<lparr>pingpongError := Some ''remote connection is timeout.''\<rparr>)"
    using s0 assms(3,5) heartbeat_cases [of ?s1 late perr'] by (simp add: step_def)
  have r: "run c s0 (map (\<lambda>now. Tick now None) ticks @ [Tick late perr']) = Returns
         (s0\<lparr>ep := (ep s0)\<lparr>pings := length ticks\<rparr>,
             pingpongError := Some ''remote connection is timeout.''\<rparr>)"
    using q l by (simp add: run_append)
  have sel: "Serve_select (s0\<lparr>ep := (ep s0)\<lparr>pings := length ticks\<rparr>,
             pingpongError := Some ''remote connection is timeout.''\<rparr>) pick
         = Some ''remote connection is timeout.''"
    using s0(2) by (simp add: Serve_select_def)
  show ?thesis using a b s0(3) r sel by simp
qed

theorem heartbeat_round_witness:
  "pingpongError (Serve_start fresh 0) = None
   \<and> sint (lastPongTimestamp (ep (Serve_start fresh 0))) + 20 < 2 ^ 63
   \<and> sint (0 :: int64) + 20 < 2 ^ 63
   \<and> sint (10 :: int64) \<le> sint (0 :: int64) + 20
   \<and> sint (20 :: int64) \<le> sint (0 :: int64) + 20
   \<and> sint (0 :: int64) + 20 < sint (30 :: int64)
   \<and> step json_codec (Serve_start fresh 0) (Tick 10 (Some ''broken pipe'')) =
       Returns ((Serve_start fresh 0)\<lparr>ep := fresh\<lparr>pings := 1\<rparr>,
                  pingpongError := Some ''remote connection is closed.''\<rparr>)
   \<and> run json_codec (Serve_start fresh 0) [Tick 10 None, Tick 20 None, Tick 30 None] =
       Returns ((Serve_start fresh 0)\<lparr>ep := fresh\<lparr>pings := 2\<rparr>,
                  pingpongError := Some ''remote connection is timeout.''\<rparr>)"
proof -
  have h: "pingpongError (Serve_start fresh 0) = None"
    "sint (lastPongTimestamp (ep (Serve_start fresh 0))) + 20 < 2 ^ 63"
    "sint (0 :: int64) + 20 < 2 ^ 63"
    "\<forall>now \<in> set [10, 20 :: int64]. sint now \<le> sint (0 :: int64) + 20"
    "sint (0 :: int64) + 20 < sint (30 :: int64)"
    "Serve_start fresh 0 = Serve_start (NewEndpoint None 0) 0"
    by (simp_all add: Serve_start_def fresh_def NewEndpoint_def)
  show ?thesis
    using h(1-5) heartbeat_round [OF h, where c = json_codec and now = 10
        and perr = "Some ''broken pipe''" and perr' = None and pick = False]
    by (simp add: Serve_start_def fresh_def NewEndpoint_def)
qed

text \<open>
  Claim C4 as stated fails in its last part: \<^verbatim>\<open>lastPongTimestamp\<close> is not set when
  \<^verbatim>\<open>Serve\<close> starts. For an endpoint made at time 0 whose \<^verbatim>\<open>Serve\<close> is entered at
  time 100 it is still 0, and the first tick, at time 110, already fails with the
  timeout: one period after \<^verbatim>\<open>Serve\<close> started, where the claim has the two periods
  from 100 not yet over.
\<close>

theorem lastPong_is_not_set_by_Serve:
  "lastPongTimestamp (ep (Serve_start (NewEndpoint None 0 :: unit Endpoint) 100)) = 0
   \<and> lastPongTimestamp (ep (Serve_start (NewEndpoint None 0 :: unit Endpoint) 100)) \<noteq> 100
   \<and> \<not> sint (100 :: int64) + 2 * 10 < sint (110 :: int64)
   \<and> (case step json_codec (Serve_start (NewEndpoint None 0) 100) (Tick 110 None) of
         Panics p \<Rightarrow> False
       | Returns s \<Rightarrow>
           pingpongError s = Some ''remote connection is timeout.'' \<and> pings (ep s) = 0
           \<and> Serve_select s False = Some ''remote connection is timeout.'')"
  by (simp add: Serve_start_def NewEndpoint_def step_def heartbeat_def two_periods
      word_sless_alt Serve_select_def)

section \<open>Registration\<close>

lemma singleton_iff: "xs = [x] \<longleftrightarrow> length xs = 1 \<and> xs ! 0 = x"
  by (cases xs) auto

lemma qualifies_code:
  "qualifies m \<longleftrightarrow>
     \<not> PkgPath m \<noteq> '''' \<and> \<not> length (In m) < 3 \<and> \<not> KindOf (In m ! 2) \<noteq> Ptr
     \<and> \<not> (length (Out m) \<noteq> 1 \<or> Out m ! 0 \<noteq> ErrorType)"
proof (cases "length (In m) < 3")
  case True
  then show ?thesis by (auto simp add: qualifies_def Let_def)
next
  case False
  then have "tl (In m) ! 1 = In m ! 2" by (simp add: nth_tl numeral_2_eq_2)
  with False show ?thesis
    by (auto simp add: qualifies_def Let_def singleton_iff [of "Out m"])
qed

lemma scan_filter:
  "scan object ms fns = fns @ map (entry object) (filter qualifies ms)"
proof (induction ms arbitrary: fns)
  case Nil
  then show ?case by simp
next
  case (Cons m ms)
  show ?case
  proof (cases "qualifies m")
    case True
    then show ?thesis using Cons [of "fns @ [entry object m]"]
      by (simp add: qualifies_code entry_def)
  next
    case False
    then show ?thesis using Cons [of fns] by (auto simp add: qualifies_code)
  qed
qed

lemma foldl_insert_other:
  "k \<notin> (\<lambda>fn. service @ ''.'' @ Name (fn_method fn)) ` set fns \<Longrightarrow>
     foldl (insert_fn service) m fns k = m k"
  by (induction fns arbitrary: m) (auto simp add: insert_fn_def)

lemma foldl_insert_member:
  "distinct (map (\<lambda>fn. service @ ''.'' @ Name (fn_method fn)) fns) \<Longrightarrow> fn \<in> set fns \<Longrightarrow>
     foldl (insert_fn service) m fns (service @ ''.'' @ Name (fn_method fn)) = Some fn"
proof (induction fns arbitrary: m)
  case Nil
  then show ?case by simp
next
  case (Cons a fns)
  let ?f = "\<lambda>fn. service @ ''.'' @ Name (fn_method fn)"
  show ?case
  proof (cases "fn = a")
    case True
    from Cons.prems(1) have notin: "?f a \<notin> ?f ` set fns" by simp
    have "foldl (insert_fn service) m (a # fns) (?f a)
            = foldl (insert_fn service) (insert_fn service m a) fns (?f a)"
      by simp
    also have "\<dots> = insert_fn service m a (?f a)"
      using notin by (rule foldl_insert_other)
    also have "\<dots> = Some a"
      by (simp add: insert_fn_def)
    finally show ?thesis using True by simp
  next
    case False
    with Cons.prems have "fn \<in> set fns" "distinct (map ?f fns)" by simp_all
    then show ?thesis using Cons.IH by simp
  qed
qed

lemma distinct_keys:
  assumes "distinct (map Name ms)"
  shows "distinct (map (\<lambda>fn. service @ ''.'' @ Name (fn_method fn))
           (map (entry object) (filter qualifies ms)))"
proof -
  have "distinct (map Name (filter qualifies ms))"
    using assms by (rule distinct_map_filter)
  then have "distinct (map ((@) (service @ ''.'')) (map Name (filter qualifies ms)))"
    by (simp add: distinct_map inj_on_def)
  then show ?thesis by (simp add: comp_def entry_def)
qed

text \<open>
  Claim C9. The methods of the receiver have distinct names, as the methods of a Go type
  have, and the receiver is not a nil pointer registered without a name (reflection
  cannot take the type behind a nil pointer: \<open>indirect_name\<close> panics, after the scan).
  If no method of the receiver qualifies,
  registration returns an error and the registry is as before. Otherwise it returns no
  error, every method that qualifies is in the registry under the key
  \<^verbatim>\<open>Service.Method\<close>, whatever was stored under that key before, and every other key
  holds what it held: the methods that qualify are registered, and no others. The
  service is the name given, or else the name of the type of the receiver, dereferenced.
\<close>

theorem RegisterService_registers_qualifying_methods:
  assumes "distinct (map Name (obj_methods object))"
    and "serviceName = '''' \<longrightarrow> \<not> (KindOf (obj_type object) = Ptr \<and> obj_nil object)"
    and "service = service_name object serviceName"
  shows "(filter qualifies (obj_methods object) = [] \<longrightarrow>
            (\<exists>err. RegisterServiceWithName r (Some object) serviceName = Returns (Some err, r)))
     \<and> (filter qualifies (obj_methods object) \<noteq> [] \<longrightarrow>
            (\<exists>r'. RegisterServiceWithName r (Some object) serviceName = Returns (None, r')
               \<and> (\<forall>m \<in> set (obj_methods object). qualifies m \<longrightarrow>
                     reg_functions r' (key service m) = Some (entry object m))
               \<and> (\<forall>k. k \<notin> key service ` {m \<in> set (obj_methods object). qualifies m} \<longrightarrow>
                     reg_functions r' k = reg_functions r k)))
     \<and> RegisterService r (Some object) = RegisterServiceWithName r (Some object) ''''"
proof -
  let ?fns = "map (entry object) (filter qualifies (obj_methods object))"
  let ?f = "\<lambda>fn. service @ ''.'' @ Name (fn_method fn)"
  let ?r' = "insert_all r service ?fns"
  have sc: "scan object (obj_methods object) [] = ?fns"
    by (simp add: scan_filter)
  have name: "indirect_name object = Returns service" if "serviceName = ''''"
    using that assms(2,3) by (simp add: indirect_name_def service_name_def split: rtype.splits)
  have given: "serviceName = service" if "serviceName \<noteq> ''''"
    using that assms(3) by (simp add: service_name_def)
  have none: "\<exists>err. RegisterServiceWithName r (Some object) serviceName = Returns (Some err, r)"
    if "filter qualifies (obj_methods object) = []"
    using that by (simp add: RegisterServiceWithName_def getRPCMethodsOfType_def sc)
  have some: "RegisterServiceWithName r (Some object) serviceName = Returns (None, ?r')"
    if "filter qualifies (obj_methods object) \<noteq> []"
  proof (cases "serviceName = ''''")
    case True
    with that name show ?thesis
      by (simp add: RegisterServiceWithName_def getRPCMethodsOfType_def sc Let_def)
  next
    case False
    with that given show ?thesis
      by (simp add: RegisterServiceWithName_def getRPCMethodsOfType_def sc Let_def)
  qed
  have keys: "?f (entry object m) = key service m" for m
    by (simp add: entry_def key_def)
  have stored: "reg_functions ?r' (key service m) = Some (entry object m)"
    if "m \<in> set (obj_methods object)" "qualifies m" for m
  proof -
    have "entry object m \<in> set ?fns" using that by simp
    then have "foldl (insert_fn service) (reg_functions r) ?fns (?f (entry object m))
                 = Some (entry object m)"
      using distinct_keys [OF assms(1), of service object]
      by (intro foldl_insert_member)
    then show ?thesis by (simp add: insert_all_def key_def entry_def)
  qed
  have other: "reg_functions ?r' k = reg_functions r k"
    if "k \<notin> key service ` {m \<in> set (obj_methods object). qualifies m}" for k
  proof -
    have "?f ` set ?fns = key service ` {m \<in> set (obj_methods object). qualifies m}"
      by (auto simp add: key_def entry_def image_iff)
    with that have "k \<notin> ?f ` set ?fns" by simp
    then show ?thesis
      using foldl_insert_other [of k service ?fns "reg_functions r"]
      by (simp add: insert_all_def)
  qed
  show ?thesis
    using none some stored other by (auto simp add: RegisterService_def)
qed

lemma Peer_qualifying: "filter qualifies (obj_methods Peer) = [Address]"
  by (simp add: Peer_def Address_def qualifies_def)

lemma Peer_names: "distinct (map Name (obj_methods Peer))"
  by (simp add: Peer_def Address_def)

theorem RegisterService_registers_qualifying_methods_witness:
  "distinct (map Name (obj_methods Peer))
   \<and> \<not> (KindOf (obj_type Peer) = Ptr \<and> obj_nil Peer)
   \<and> ''Peer'' = service_name Peer ''''
   \<and> filter qualifies (obj_methods Peer) = [Address]
   \<and> (\<exists>r'. RegisterService \<lparr>reg_functions = [''Peer.Address'' \<mapsto> WordLength_Len]\<rparr> (Some Peer)
              = Returns (None, r')
          \<and> reg_functions r' ''Peer.Address'' = Some (entry Peer Address)
          \<and> reg_functions r' ''Peer.hidden'' = None)
   \<and> (\<exists>err. RegisterService NewRegistry (Some (Peer\<lparr>obj_methods := []\<rparr>))
              = Returns (Some err, NewRegistry))"
proof -
  let ?r = "\<lparr>reg_functions = [''Peer.Address'' \<mapsto> WordLength_Len]\<rparr>"
  have n: "\<not> (KindOf (obj_type Peer) = Ptr \<and> obj_nil Peer)"
    by (simp add: Peer_def)
  have h: "'''' = '''' \<longrightarrow> \<not> (KindOf (obj_type Peer) = Ptr \<and> obj_nil Peer)"
    "''Peer'' = service_name Peer ''''"
    by (simp_all add: Peer_def service_name_def)
  have q: "{m \<in> set (obj_methods Peer). qualifies m} = {Address}"
    using Peer_qualifying set_filter [of qualifies "obj_methods Peer"] by simp
  have m: "Address \<in> set (obj_methods Peer)" "qualifies Address"
    using q by auto
  have k: "key ''Peer'' Address = ''Peer.Address''"
    "''Peer.hidden'' \<notin> key ''Peer'' ` {m \<in> set (obj_methods Peer). qualifies m}"
    by (simp_all add: q key_def Address_def)
  have e: "distinct (map Name (obj_methods (Peer\<lparr>obj_methods := []\<rparr>)))"
    "'''' = '''' \<longrightarrow>
       \<not> (KindOf (obj_type (Peer\<lparr>obj_methods := []\<rparr>)) = Ptr \<and> obj_nil (Peer\<lparr>obj_methods := []\<rparr>))"
    "''Peer'' = service_name (Peer\<lparr>obj_methods := []\<rparr>) ''''"
    by (simp_all add: Peer_def service_name_def)
  have "\<exists>r'. RegisterService ?r (Some Peer) = Returns (None, r')
          \<and> reg_functions r' ''Peer.Address'' = Some (entry Peer Address)
          \<and> reg_functions r' ''Peer.hidden'' = None"
    using RegisterService_registers_qualifying_methods [OF Peer_names h, of ?r]
      Peer_qualifying m k by fastforce
  moreover have "\<exists>err. RegisterService NewRegistry (Some (Peer\<lparr>obj_methods := []\<rparr>))
              = Returns (Some err, NewRegistry)"
    using RegisterService_registers_qualifying_methods [OF e, of NewRegistry] by simp
  ultimately show ?thesis using Peer_names n h(2) Peer_qualifying by simp
qed

lemma RegisterService_WordLength:
  "RegisterService NewRegistry (Some WordLength) = Returns (None, WordLength_registry)"
  by (simp add: RegisterService_def RegisterServiceWithName_def getRPCMethodsOfType_def
      indirect_name_def insert_all_def insert_fn_def NewRegistry_def WordLength_registry_def
      WordLength_def Len_def WordLength_Len_def)

end
